theory Spec2Isabelle
  imports Main "HOL-Library.Word"
begin

unbundle bit_operations_syntax

section \<open>SOCKS5 handshake of SuperProxy (proxy.go)\<close>

text \<open>
  The embedding follows \<^verbatim>\<open>proxy.go\<close>. A client connection is the sequence of bytes
  its peer still delivers (a read of more bytes than remain fails, as a truncated
  stream, a reset or the handshake deadline would make it fail) together with the log of
  what the handler did on it, in program order. Whether a write succeeds and what the
  dialer answers are decided outside the program and are parameters of the model.
\<close>

subsection \<open>Constants (RFC 1928)\<close>

type_synonym byte = "8 word"

definition socks5Version :: byte where "socks5Version = 0x05"

definition authNone :: byte where "authNone = 0x00"
definition authNoAcceptable :: byte where "authNoAcceptable = 0xFF"

definition cmdConnect :: byte where "cmdConnect = 0x01"

definition atypIPv4 :: byte where "atypIPv4 = 0x01"
definition atypDomain :: byte where "atypDomain = 0x03"
definition atypIPv6 :: byte where "atypIPv6 = 0x04"

definition repSuccess :: byte where "repSuccess = 0x00"
definition repGeneralFailure :: byte where "repGeneralFailure = 0x01"
definition repConnectionNotAllowed :: byte where "repConnectionNotAllowed = 0x02"
definition repNetworkUnreachable :: byte where "repNetworkUnreachable = 0x03"
definition repHostUnreachable :: byte where "repHostUnreachable = 0x04"
definition repConnectionRefused :: byte where "repConnectionRefused = 0x05"
definition repCommandNotSupported :: byte where "repCommandNotSupported = 0x07"
definition repAddrTypeNotSupported :: byte where "repAddrTypeNotSupported = 0x08"

subsection \<open>Addresses, errors and the outside world\<close>

text \<open>
  Go's \<^verbatim>\<open>net.IP\<close> is a byte slice; \<open>None\<close> is the nil slice. \<^verbatim>\<open>To4\<close> and \<^verbatim>\<open>To16\<close>
  are the standard library's: a 4-byte slice is IPv4, a 16-byte slice with the prefix
  \<^verbatim>\<open>00 .. 00 ff ff\<close> is an IPv4 address in IPv6 form, any other length has neither
  form.
\<close>

type_synonym IP = "byte list option"

definition v4InV6Prefix :: "byte list" where
  "v4InV6Prefix = [0, 0, 0, 0, 0, 0, 0, 0, 0, 0, 0xff, 0xff]"

definition To4 :: "IP \<Rightarrow> IP" where
  "To4 ip = (case ip of
       None \<Rightarrow> None
     | Some bs \<Rightarrow>
         if length bs = 4 then Some bs
         else if length bs = 16 \<and> take 12 bs = v4InV6Prefix then Some (drop 12 bs)
         else None)"

definition To16 :: "IP \<Rightarrow> IP" where
  "To16 ip = (case ip of
       None \<Rightarrow> None
     | Some bs \<Rightarrow>
         if length bs = 4 then Some (v4InV6Prefix @ bs)
         else if length bs = 16 then Some bs
         else None)"

text \<open>The destination of a request, as the three address types deliver it.\<close>

datatype dest = DestIPv4 "byte list" | DestDomain "byte list" | DestIPv6 "byte list"

record target =
  destAddr :: dest
  destPort :: "16 word"

record TCPAddr =
  addrIP :: IP
  addrPort :: int

text \<open>
  The error of a failed dial: a system call's error number, wrapped by the network
  library, or an error that carries none (name resolution, a timeout, anything else).
  \<^verbatim>\<open>errors.Is\<close> finds the error number in the chain.
\<close>

datatype errno =
  ECONNREFUSED | ENETUNREACH | EHOSTUNREACH | ETIMEDOUT | EADDRNOTAVAIL | ECONNRESET | EACCES

datatype dial_error = SyscallError errno | DNSError | TimeoutError | OtherError

fun errors_Is :: "dial_error \<Rightarrow> errno \<Rightarrow> bool" where
  "errors_Is (SyscallError e) t = (e = t)"
| "errors_Is _ t = False"

datatype dial_result = DialOk TCPAddr | DialErr dial_error

text \<open>
  What the handler does on its sockets, in program order. A write is logged with the
  bytes handed to \<^verbatim>\<open>Write\<close> and with whether the call succeeded.
\<close>

datatype event =
    SetDeadline
  | Write "byte list" bool
  | Dial IP target
  | ClearDeadlines
  | Relay
  | CloseRemote
  | CloseClient

record conn =
  unread :: "byte list"
  nwrites :: nat
  events :: "event list"

record env =
  write_ok :: "nat \<Rightarrow> bool"
  dial :: "IP \<Rightarrow> target \<Rightarrow> dial_result"

definition accepted :: "byte list \<Rightarrow> conn" where
  "accepted inp = \<lparr>unread = inp, nwrites = 0, events = []\<rparr>"

definition log_event :: "event \<Rightarrow> conn \<Rightarrow> conn" where
  "log_event e c = c\<lparr>events := events c @ [e]\<rparr>"

text \<open>
  \<^verbatim>\<open>io.ReadFull(client, buf)\<close> for a buffer of \<open>n\<close> bytes: the bytes, or an error when
  the stream ends first (what was there is consumed).
\<close>

definition ReadFull :: "conn \<Rightarrow> nat \<Rightarrow> byte list option \<times> conn" where
  "ReadFull c n =
     (if n \<le> length (unread c)
      then (Some (take n (unread c)), c\<lparr>unread := drop n (unread c)\<rparr>)
      else (None, c\<lparr>unread := []\<rparr>))"

text \<open>\<^verbatim>\<open>client.Write(bs)\<close>: the outcome of the k-th write on the connection is the world's.\<close>

definition conn_Write :: "env \<Rightarrow> conn \<Rightarrow> byte list \<Rightarrow> bool \<times> conn" where
  "conn_Write E c bs =
     (let ok = write_ok E (nwrites c)
      in (ok, c\<lparr>nwrites := Suc (nwrites c), events := events c @ [Write bs ok]\<rparr>))"

subsection \<open>sendReply\<close>

text \<open>\<^verbatim>\<open>copy(buf[lo:hi], src)\<close> copies as many bytes as fit.\<close>

definition copy_slice :: "byte list \<Rightarrow> nat \<Rightarrow> nat \<Rightarrow> byte list \<Rightarrow> byte list" where
  "copy_slice buf lo hi src =
     (let k = min (hi - lo) (length src)
      in take lo buf @ take k src @ drop (lo + k) buf)"

text \<open>\<^verbatim>\<open>binary.BigEndian.PutUint16(buf[n:n+2], v)\<close> and \<^verbatim>\<open>binary.BigEndian.Uint16\<close>.\<close>

definition PutUint16 :: "byte list \<Rightarrow> nat \<Rightarrow> 16 word \<Rightarrow> byte list" where
  "PutUint16 buf n v = buf[n := ucast (drop_bit 8 v), Suc n := ucast v]"

definition Uint16 :: "byte list \<Rightarrow> 16 word" where
  "Uint16 b = (ucast (b ! 1)) OR (push_bit 8 (ucast (b ! 0)))"

text \<open>The bytes \<^verbatim>\<open>buf[:n]\<close> that \<^verbatim>\<open>sendReply\<close> hands to \<^verbatim>\<open>conn.Write\<close>.\<close>

definition sendReply_buf :: "byte \<Rightarrow> IP \<Rightarrow> 16 word \<Rightarrow> byte list" where
  "sendReply_buf rep bindIP bindPort =
     (let buf0 = (replicate 22 0)[0 := socks5Version, 1 := rep, 2 := 0x00];
          (buf1, n) =
            (if bindIP \<noteq> None then
               (case To4 bindIP of
                  Some v4 \<Rightarrow> (copy_slice (buf0[3 := atypIPv4]) 4 8 v4, 8)
                | None \<Rightarrow>
                    (copy_slice (buf0[3 := atypIPv6]) 4 20
                       (case To16 bindIP of Some v6 \<Rightarrow> v6 | None \<Rightarrow> []), 20))
             else (buf0[3 := atypIPv4], 8));
          buf2 = PutUint16 buf1 n bindPort
      in take (n + 2) buf2)"

definition sendReply :: "env \<Rightarrow> conn \<Rightarrow> byte \<Rightarrow> IP \<Rightarrow> 16 word \<Rightarrow> conn" where
  "sendReply E c rep bindIP bindPort = snd (conn_Write E c (sendReply_buf rep bindIP bindPort))"

subsection \<open>handleConnection\<close>

text \<open>The scan of the offered methods for \<^verbatim>\<open>authNone\<close>, leaving at the first hit.\<close>

fun hasNoAuth :: "byte list \<Rightarrow> bool" where
  "hasNoAuth [] = False"
| "hasNoAuth (m # ms) = (if m = authNone then True else hasNoAuth ms)"

text \<open>
  Auth negotiation (the part of \<^verbatim>\<open>handleConnection\<close> up to the request): the flag says
  whether the handler goes on to read the request; \<open>False\<close> is one of its returns.
\<close>

definition auth_negotiation :: "env \<Rightarrow> conn \<Rightarrow> bool \<times> conn" where
  "auth_negotiation E client =
     (case ReadFull client 2 of
        (None, c1) \<Rightarrow> (False, c1)
      | (Some hdr, c1) \<Rightarrow>
          if hdr ! 0 \<noteq> socks5Version then (False, c1)
          else
            let nmethods = unat (hdr ! 1) in
            if nmethods = 0 \<or> nmethods > 255 then (False, c1)
            else
              (case ReadFull c1 nmethods of
                 (None, c2) \<Rightarrow> (False, c2)
               | (Some methods, c2) \<Rightarrow>
                   if \<not> hasNoAuth methods
                   then (False, snd (conn_Write E c2 [socks5Version, authNoAcceptable]))
                   else
                     (case conn_Write E c2 [socks5Version, authNone] of
                        (False, c3) \<Rightarrow> (False, c3)
                      | (True, c3) \<Rightarrow> (True, c3))))"

text \<open>
  The \<^verbatim>\<open>switch atyp\<close>: the destination address, or \<open>None\<close> where the handler returns.
\<close>

definition parse_dest :: "env \<Rightarrow> conn \<Rightarrow> byte \<Rightarrow> dest option \<times> conn" where
  "parse_dest E c atyp =
     (if atyp = atypIPv4 then
        (case ReadFull c 4 of
           (None, c1) \<Rightarrow> (None, c1)
         | (Some addr, c1) \<Rightarrow> (Some (DestIPv4 addr), c1))
      else if atyp = atypDomain then
        (case ReadFull c 1 of
           (None, c1) \<Rightarrow> (None, c1)
         | (Some domainLen, c1) \<Rightarrow>
             if domainLen ! 0 = 0 then (None, sendReply E c1 repGeneralFailure None 0)
             else
               (case ReadFull c1 (unat (domainLen ! 0)) of
                  (None, c2) \<Rightarrow> (None, c2)
                | (Some domain, c2) \<Rightarrow> (Some (DestDomain domain), c2)))
      else if atyp = atypIPv6 then
        (case ReadFull c 16 of
           (None, c1) \<Rightarrow> (None, c1)
         | (Some addr, c1) \<Rightarrow> (Some (DestIPv6 addr), c1))
      else (None, sendReply E c repAddrTypeNotSupported None 0))"

text \<open>
  The request (header, destination address, destination port): the target to dial, or
  \<open>None\<close> where the handler returns.
\<close>

definition read_request :: "env \<Rightarrow> conn \<Rightarrow> target option \<times> conn" where
  "read_request E c =
     (case ReadFull c 4 of
        (None, c1) \<Rightarrow> (None, c1)
      | (Some reqHdr, c1) \<Rightarrow>
          if reqHdr ! 0 \<noteq> socks5Version then (None, c1)
          else if reqHdr ! 1 \<noteq> cmdConnect
          then (None, sendReply E c1 repCommandNotSupported None 0)
          else
            (case parse_dest E c1 (reqHdr ! 3) of
               (None, c2) \<Rightarrow> (None, c2)
             | (Some d, c2) \<Rightarrow>
                 (case ReadFull c2 2 of
                    (None, c3) \<Rightarrow> (None, c3)
                  | (Some portBuf, c3) \<Rightarrow>
                      (Some \<lparr>destAddr = d, destPort = Uint16 portBuf\<rparr>, c3))))"

text \<open>The reply status of a failed dial.\<close>

definition dial_failure_rep :: "dial_error \<Rightarrow> byte" where
  "dial_failure_rep err =
     (if errors_Is err ECONNREFUSED then repConnectionRefused
      else if errors_Is err ENETUNREACH then repNetworkUnreachable
      else if errors_Is err EHOSTUNREACH then repHostUnreachable
      else repGeneralFailure)"

text \<open>
  Dial, reply and relay. \<^verbatim>\<open>defer remote.Close()\<close> runs when the handler returns after
  the relay.
\<close>

definition dial_outbound :: "env \<Rightarrow> conn \<Rightarrow> IP \<Rightarrow> target \<Rightarrow> conn" where
  "dial_outbound E c outboundIP tgt =
     (let c1 = log_event (Dial outboundIP tgt) c in
      case dial E outboundIP tgt of
        DialErr err \<Rightarrow> sendReply E c1 (dial_failure_rep err) None 0
      | DialOk boundAddr \<Rightarrow>
          let c2 = sendReply E c1 repSuccess (addrIP boundAddr) (word_of_int (addrPort boundAddr));
              c3 = log_event ClearDeadlines c2;
              c4 = log_event Relay c3
          in log_event CloseRemote c4)"

text \<open>\<^verbatim>\<open>defer client.Close()\<close> runs at every return.\<close>

definition handleConnection :: "env \<Rightarrow> conn \<Rightarrow> IP \<Rightarrow> conn" where
  "handleConnection E client outboundIP =
     log_event CloseClient
       (let c0 = log_event SetDeadline client in
        case auth_negotiation E c0 of
          (False, c1) \<Rightarrow> c1
        | (True, c1) \<Rightarrow>
            (case read_request E c1 of
               (None, c2) \<Rightarrow> c2
             | (Some tgt, c2) \<Rightarrow> dial_outbound E c2 outboundIP tgt))"

text \<open>The events of the session of a freshly accepted client that sends \<open>inp\<close>.\<close>

definition session :: "env \<Rightarrow> byte list \<Rightarrow> IP \<Rightarrow> event list" where
  "session E inp oip = events (handleConnection E (accepted inp) oip)"

subsection \<open>Sample sessions\<close>

text \<open>
  A world whose dialer gives the same answer to every dial, and a client that offers
  no-auth and asks for a CONNECT to 127.0.0.1:80.
\<close>

definition const_env :: "(nat \<Rightarrow> bool) \<Rightarrow> dial_result \<Rightarrow> env" where
  "const_env w r = \<lparr>write_ok = w, dial = (\<lambda>_ _. r)\<rparr>"

definition connect_localhost :: "byte list" where
  "connect_localhost = [5, 1, 0,  5, 1, 0, 1, 127, 0, 0, 1, 0, 80]"

definition localhost_80 :: target where
  "localhost_80 = \<lparr>destAddr = DestIPv4 [127, 0, 0, 1], destPort = 80\<rparr>"

definition bound_v6 :: TCPAddr where
  "bound_v6 = \<lparr>addrIP = Some [0x20, 0x01, 0x0d, 0xb8, 0, 0, 0, 0, 0, 0, 0, 0, 0, 0, 0, 1],
               addrPort = 40000\<rparr>"

subsection \<open>relay and copyAndClose\<close>

text \<open>
  \<^verbatim>\<open>relay\<close> starts two goroutines, one per direction, each running \<^verbatim>\<open>copyAndClose\<close>,
  and waits for both on a \<^verbatim>\<open>sync.WaitGroup\<close>. The model is an interleaving of three
  threads: the caller and the two directions. Each thread has a program counter with one
  value per statement, and a move of the scheduler lets one thread run its next
  statement. What \<^verbatim>\<open>io.CopyBuffer\<close> returns (the bytes written, and an error or none),
  which buffer \<^verbatim>\<open>sync.Pool.Get\<close> hands out (a pooled one, or a new one) and when the pool
  drops an idle buffer belong to the scheduler's move. \<^verbatim>\<open>wg.Wait\<close> goes on only at
  counter zero. Of the other sessions that share the pool the model has only this: an
  idle buffer may leave the pool at any time.
\<close>

datatype sock = Client | Remote

datatype copy_result = CopyOk nat | CopyErr nat

text \<open>
  \<^verbatim>\<open>bufPool\<close>: buffers are told apart by a number; \<open>idle\<close> are the pooled ones, \<open>fresh\<close>
  is the number of the next buffer \<^verbatim>\<open>New\<close> makes.
\<close>

record pool =
  idle :: "nat list"
  fresh :: nat

definition pool_New :: "pool \<Rightarrow> nat \<times> pool" where
  "pool_New P = (fresh P, P\<lparr>fresh := Suc (fresh P)\<rparr>)"

definition pool_Get :: "pool \<Rightarrow> nat option \<Rightarrow> nat \<times> pool" where
  "pool_Get P ch =
     (case ch of
        None \<Rightarrow> pool_New P
      | Some i \<Rightarrow>
          if i < length (idle P)
          then (idle P ! i, P\<lparr>idle := take i (idle P) @ drop (Suc i) (idle P)\<rparr>)
          else pool_New P)"

definition pool_Put :: "pool \<Rightarrow> nat \<Rightarrow> pool" where
  "pool_Put P b = P\<lparr>idle := b # idle P\<rparr>"

definition pool_Evict :: "pool \<Rightarrow> nat \<Rightarrow> pool" where
  "pool_Evict P i = P\<lparr>idle := take i (idle P) @ drop (Suc i) (idle P)\<rparr>"

datatype action =
    PoolGet nat
  | CopyBuffer sock sock nat copy_result
  | CloseWrite sock
  | CloseRead sock
  | PoolPut nat
  | WgAdd int
  | WgDone
  | WgWait

text \<open>
  The statements of \<^verbatim>\<open>copyAndClose\<close>, then the deferred \<^verbatim>\<open>bufPool.Put\<close> and the
  goroutine's deferred \<^verbatim>\<open>wg.Done\<close>; \<open>bufp\<close> is carried from \<^verbatim>\<open>Get\<close> to \<^verbatim>\<open>Put\<close>.
  A direction keeps the list of what it has done (\<open>hist\<close>), and the state keeps the
  log of all threads (\<open>rlog\<close>); the program reads neither.
\<close>

datatype tpc =
  AtGet | AtCopy nat | AtCloseWrite nat | AtCloseRead nat | AtPut nat | AtWgDone | Exited

record task =
  dst :: sock
  src :: sock
  tpc :: tpc
  hist :: "action list"

datatype thread = Caller | ClientToRemote | RemoteToClient

datatype mpc = MAdd | MGo1 | MGo2 | MWait | MReturned

record rstate =
  mainpc :: mpc
  wg :: int
  c2r :: "task option"
  r2c :: "task option"
  bufPool :: pool
  rlog :: "(thread \<times> action) list"

datatype move = RunCaller | RunTask thread "nat option" copy_result | Evict nat

definition spawn :: "sock \<Rightarrow> sock \<Rightarrow> task" where
  "spawn d s = \<lparr>dst = d, src = s, tpc = AtGet, hist = []\<rparr>"

definition task_step ::
  "(sock \<Rightarrow> bool) \<Rightarrow> nat option \<Rightarrow> copy_result \<Rightarrow> task \<Rightarrow> pool \<Rightarrow> int
     \<Rightarrow> task \<times> pool \<times> int \<times> action list" where
  "task_step tcp ch res t P w =
     (case tpc t of
        AtGet \<Rightarrow>
          (let (bufp, P') = pool_Get P ch
           in (t\<lparr>tpc := AtCopy bufp, hist := hist t @ [PoolGet bufp]\<rparr>, P', w, [PoolGet bufp]))
      | AtCopy bufp \<Rightarrow>
          (let a = CopyBuffer (dst t) (src t) bufp res
           in (t\<lparr>tpc := AtCloseWrite bufp, hist := hist t @ [a]\<rparr>, P, w, [a]))
      | AtCloseWrite bufp \<Rightarrow>
          (let as = (if tcp (dst t) then [CloseWrite (dst t)] else [])
           in (t\<lparr>tpc := AtCloseRead bufp, hist := hist t @ as\<rparr>, P, w, as))
      | AtCloseRead bufp \<Rightarrow>
          (let as = (if tcp (src t) then [CloseRead (src t)] else [])
           in (t\<lparr>tpc := AtPut bufp, hist := hist t @ as\<rparr>, P, w, as))
      | AtPut bufp \<Rightarrow>
          (t\<lparr>tpc := AtWgDone, hist := hist t @ [PoolPut bufp]\<rparr>, pool_Put P bufp, w,
           [PoolPut bufp])
      | AtWgDone \<Rightarrow>
          (t\<lparr>tpc := Exited, hist := hist t @ [WgDone]\<rparr>, P, w - 1, [WgDone])
      | Exited \<Rightarrow> (t, P, w, []))"

definition main_step :: "rstate \<Rightarrow> rstate" where
  "main_step s =
     (case mainpc s of
        MAdd \<Rightarrow> s\<lparr>mainpc := MGo1, wg := wg s + 2, rlog := rlog s @ [(Caller, WgAdd 2)]\<rparr>
      | MGo1 \<Rightarrow> s\<lparr>mainpc := MGo2, c2r := Some (spawn Remote Client)\<rparr>
      | MGo2 \<Rightarrow> s\<lparr>mainpc := MWait, r2c := Some (spawn Client Remote)\<rparr>
      | MWait \<Rightarrow>
          if wg s = 0 then s\<lparr>mainpc := MReturned, rlog := rlog s @ [(Caller, WgWait)]\<rparr> else s
      | MReturned \<Rightarrow> s)"

definition run_task :: "(sock \<Rightarrow> bool) \<Rightarrow> thread \<Rightarrow> nat option \<Rightarrow> copy_result
    \<Rightarrow> task \<Rightarrow> rstate \<Rightarrow> task \<times> rstate" where
  "run_task tcp th ch res t s =
     (let (t', P', w', as) = task_step tcp ch res t (bufPool s) (wg s)
      in (t', s\<lparr>bufPool := P', wg := w', rlog := rlog s @ map (Pair th) as\<rparr>))"

definition relay_step :: "(sock \<Rightarrow> bool) \<Rightarrow> move \<Rightarrow> rstate \<Rightarrow> rstate" where
  "relay_step tcp m s =
     (case m of
        RunCaller \<Rightarrow> main_step s
      | Evict i \<Rightarrow> s\<lparr>bufPool := pool_Evict (bufPool s) i\<rparr>
      | RunTask th ch res \<Rightarrow>
          (case th of
             Caller \<Rightarrow> s
           | ClientToRemote \<Rightarrow>
               (case c2r s of
                  None \<Rightarrow> s
                | Some t \<Rightarrow>
                    (let (t', s') = run_task tcp ClientToRemote ch res t s
                     in s'\<lparr>c2r := Some t'\<rparr>))
           | RemoteToClient \<Rightarrow>
               (case r2c s of
                  None \<Rightarrow> s
                | Some t \<Rightarrow>
                    (let (t', s') = run_task tcp RemoteToClient ch res t s
                     in s'\<lparr>r2c := Some t'\<rparr>))))"

definition relay_init :: "pool \<Rightarrow> rstate" where
  "relay_init P = \<lparr>mainpc = MAdd, wg = 0, c2r = None, r2c = None, bufPool = P, rlog = []\<rparr>"

definition relay_run :: "(sock \<Rightarrow> bool) \<Rightarrow> rstate \<Rightarrow> move list \<Rightarrow> rstate" where
  "relay_run tcp s ms = fold (relay_step tcp) ms s"

text \<open>What a thread did, in its order, and the buffer a direction holds.\<close>

definition did :: "thread \<Rightarrow> rstate \<Rightarrow> action list" where
  "did th s = map snd (filter (\<lambda>e. fst e = th) (rlog s))"

definition holding :: "task option \<Rightarrow> nat list" where
  "holding t =
     (case t of
        None \<Rightarrow> []
      | Some t \<Rightarrow>
          (case tpc t of
             AtCopy b \<Rightarrow> [b]
           | AtCloseWrite b \<Rightarrow> [b]
           | AtCloseRead b \<Rightarrow> [b]
           | AtPut b \<Rightarrow> [b]
           | _ \<Rightarrow> []))"

definition held :: "rstate \<Rightarrow> nat list" where
  "held s = holding (c2r s) @ holding (r2c s)"

text \<open>All that one direction does, from \<^verbatim>\<open>Get\<close> to the exit of its goroutine.\<close>

definition half_close :: "(sock \<Rightarrow> bool) \<Rightarrow> sock \<Rightarrow> sock \<Rightarrow> action list" where
  "half_close tcp d s =
     (if tcp d then [CloseWrite d] else []) @ (if tcp s then [CloseRead s] else [])"

definition direction_trace ::
  "(sock \<Rightarrow> bool) \<Rightarrow> sock \<Rightarrow> sock \<Rightarrow> nat \<Rightarrow> copy_result \<Rightarrow> action list" where
  "direction_trace tcp d s b r =
     [PoolGet b, CopyBuffer d s b r] @ half_close tcp d s @ [PoolPut b, WgDone]"

definition pool_ok :: "pool \<Rightarrow> bool" where
  "pool_ok P = (distinct (idle P) \<and> list_all (\<lambda>b. b < fresh P) (idle P))"

text \<open>The run of \<^verbatim>\<open>relay\<close> from a pool under a schedule.\<close>

definition relay_from :: "(sock \<Rightarrow> bool) \<Rightarrow> pool \<Rightarrow> move list \<Rightarrow> rstate" where
  "relay_from tcp P ms = relay_run tcp (relay_init P) ms"

definition copy_returned :: "task \<Rightarrow> bool" where
  "copy_returned t = (tpc t = AtWgDone \<or> tpc t = Exited)"

definition direction :: "thread \<Rightarrow> rstate \<Rightarrow> task option" where
  "direction th s = (case th of Caller \<Rightarrow> None | ClientToRemote \<Rightarrow> c2r s | RemoteToClient \<Rightarrow> r2c s)"

subsection \<open>Invariants of relay\<close>

text \<open>How far a direction has come, read off its program counter.\<close>

definition task_ok :: "(sock \<Rightarrow> bool) \<Rightarrow> task \<Rightarrow> bool" where
  "task_ok tcp t =
     (case tpc t of
        AtGet \<Rightarrow> hist t = []
      | AtCopy b \<Rightarrow> hist t = [PoolGet b]
      | AtCloseWrite b \<Rightarrow> (\<exists>r. hist t = [PoolGet b, CopyBuffer (dst t) (src t) b r])
      | AtCloseRead b \<Rightarrow>
          (\<exists>r. hist t = [PoolGet b, CopyBuffer (dst t) (src t) b r]
                   @ (if tcp (dst t) then [CloseWrite (dst t)] else []))
      | AtPut b \<Rightarrow>
          (\<exists>r. hist t = [PoolGet b, CopyBuffer (dst t) (src t) b r]
                   @ half_close tcp (dst t) (src t))
      | AtWgDone \<Rightarrow>
          (\<exists>b r. hist t = [PoolGet b, CopyBuffer (dst t) (src t) b r]
                   @ half_close tcp (dst t) (src t) @ [PoolPut b])
      | Exited \<Rightarrow> (\<exists>b r. hist t = direction_trace tcp (dst t) (src t) b r))"

definition hist_of :: "task option \<Rightarrow> action list" where
  "hist_of t = (case t of None \<Rightarrow> [] | Some t \<Rightarrow> hist t)"

definition pending :: "task option \<Rightarrow> int" where
  "pending t = (case t of None \<Rightarrow> 1 | Some t \<Rightarrow> if tpc t = Exited then 0 else 1)"

definition inv_hist :: "(sock \<Rightarrow> bool) \<Rightarrow> rstate \<Rightarrow> bool" where
  "inv_hist tcp s =
     ((case c2r s of None \<Rightarrow> True
        | Some t \<Rightarrow> task_ok tcp t \<and> dst t = Remote \<and> src t = Client)
    \<and> (case r2c s of None \<Rightarrow> True
        | Some t \<Rightarrow> task_ok tcp t \<and> dst t = Client \<and> src t = Remote)
    \<and> did ClientToRemote s = hist_of (c2r s)
    \<and> did RemoteToClient s = hist_of (r2c s))"

definition inv_ctl :: "rstate \<Rightarrow> bool" where
  "inv_ctl s =
     (case mainpc s of
        MAdd \<Rightarrow> wg s = 0 \<and> c2r s = None \<and> r2c s = None \<and> did Caller s = []
      | MGo1 \<Rightarrow> wg s = 2 \<and> c2r s = None \<and> r2c s = None \<and> did Caller s = [WgAdd 2]
      | MGo2 \<Rightarrow> wg s = pending (c2r s) + 1 \<and> c2r s \<noteq> None \<and> r2c s = None
                 \<and> did Caller s = [WgAdd 2]
      | MWait \<Rightarrow> wg s = pending (c2r s) + pending (r2c s) \<and> c2r s \<noteq> None \<and> r2c s \<noteq> None
                 \<and> did Caller s = [WgAdd 2]
      | MReturned \<Rightarrow> pending (c2r s) = 0 \<and> pending (r2c s) = 0 \<and> wg s = 0
                 \<and> did Caller s = [WgAdd 2, WgWait]
                 \<and> rlog s \<noteq> [] \<and> last (rlog s) = (Caller, WgWait))"

definition inv_pool :: "rstate \<Rightarrow> bool" where
  "inv_pool s =
     (distinct (idle (bufPool s)) \<and> distinct (held s)
      \<and> set (idle (bufPool s)) \<inter> set (held s) = {}
      \<and> (\<forall>b \<in> set (idle (bufPool s)) \<union> set (held s). b < fresh (bufPool s)))"

text \<open>The pool and the buffers in use: no buffer twice, none both pooled and in use.\<close>

definition pool_inv :: "pool \<Rightarrow> nat list \<Rightarrow> bool" where
  "pool_inv P hs = (distinct (idle P) \<and> distinct hs \<and> set (idle P) \<inter> set hs = {}
                    \<and> (\<forall>b \<in> set (idle P) \<union> set hs. b < fresh P))"

text \<open>A pool with one idle buffer, and a schedule in which one copy ends on an error.\<close>

definition sample_pool :: pool where
  "sample_pool = \<lparr>idle = [7], fresh = 8\<rparr>"

definition sample_schedule :: "move list" where
  "sample_schedule =
     [RunCaller, RunCaller, RunTask ClientToRemote (Some 0) (CopyOk 0), RunCaller, RunCaller,
      RunTask RemoteToClient (Some 0) (CopyOk 0),
      RunTask ClientToRemote None (CopyErr 10),
      RunTask RemoteToClient None (CopyOk 3),
      RunTask ClientToRemote None (CopyOk 0),
      RunTask ClientToRemote None (CopyOk 0),
      RunTask ClientToRemote None (CopyOk 0),
      RunCaller,
      RunTask ClientToRemote None (CopyOk 0),
      RunTask RemoteToClient None (CopyOk 0),
      RunTask RemoteToClient None (CopyOk 0),
      RunTask RemoteToClient None (CopyOk 0),
      RunTask RemoteToClient None (CopyOk 0), RunCaller]"

section \<open>Properties\<close>

lemmas socks5_consts =
  socks5Version_def authNone_def authNoAcceptable_def cmdConnect_def
  atypIPv4_def atypDomain_def atypIPv6_def
  repSuccess_def repGeneralFailure_def repConnectionNotAllowed_def
  repNetworkUnreachable_def repHostUnreachable_def repConnectionRefused_def
  repCommandNotSupported_def repAddrTypeNotSupported_def

subsection \<open>Reads, writes and the reply buffer\<close>

lemma reply_buf0:
  "(replicate 22 0)[0 := v, Suc 0 := r, 2 := z, 3 := a] = [v, r, z, a] @ replicate 18 (0::byte)"
  by (simp add: numeral_eq_Suc)

lemma copy_slice_addr:
  assumes "length pre = 4" "length xs = k" "k \<le> 18"
  shows "copy_slice (pre @ replicate 18 (0::byte)) 4 (4 + k) xs
           = pre @ xs @ replicate (18 - k) 0"
  using assms by (simp add: copy_slice_def)

lemma PutUint16_tail:
  assumes "length xs = n" "2 \<le> m"
  shows "take (n + 2) (PutUint16 (xs @ replicate m 0) n p)
           = xs @ [ucast (drop_bit 8 p), ucast p]"
proof -
  from assms(2) obtain m' where m: "m = Suc (Suc m')"
    by (metis Suc_le_D numeral_2_eq_2 Suc_le_mono)
  show ?thesis using assms(1)
    by (simp add: PutUint16_def m list_update_append)
qed

lemma To4_length: "To4 ip = Some v4 \<Longrightarrow> length v4 = 4"
  by (auto simp: To4_def split: option.splits if_splits)

lemma To16_length: "To16 ip = Some v6 \<Longrightarrow> length v6 = 16"
  by (auto simp: To16_def v4InV6Prefix_def split: option.splits if_splits)

lemma sendReply_buf_nil_port:
  "sendReply_buf rep None port = [0x05, rep, 0x00, 0x01, 0, 0, 0, 0, ucast (drop_bit 8 port), ucast port]"
  by (simp add: sendReply_buf_def PutUint16_def socks5_consts numeral_eq_Suc)

lemma sendReply_buf_v4:
  assumes "To4 ip = Some v4"
  shows "sendReply_buf rep ip port = [0x05, rep, 0x00, 0x01] @ v4 @ [ucast (drop_bit 8 port), ucast port]"
proof -
  from assms have ne: "ip \<noteq> None" by (auto simp: To4_def split: option.splits)
  have l: "length v4 = 4" by (rule To4_length [OF assms])
  have c: "copy_slice ([0x05, rep, 0x00, 0x01] @ replicate 18 (0::byte)) 4 8 v4
             = [0x05, rep, 0x00, 0x01] @ v4 @ replicate 14 0"
    using copy_slice_addr [of "[0x05, rep, 0x00, 0x01]" v4 4] l by simp
  have p: "take (8 + 2) (PutUint16 (([0x05, rep, 0x00, 0x01] @ v4) @ replicate 14 0) 8 port)
             = ([0x05, rep, 0x00, 0x01] @ v4) @ [ucast (drop_bit 8 port), ucast port]"
    by (rule PutUint16_tail) (simp_all add: l)
  show ?thesis
    using ne assms c p
    by (simp add: sendReply_buf_def reply_buf0 socks5_consts)
qed

lemma sendReply_buf_v6:
  assumes "ip \<noteq> None" "To4 ip = None"
  shows "sendReply_buf rep ip port = [0x05, rep, 0x00, 0x04]
            @ (case To16 ip of Some v6 \<Rightarrow> v6 | None \<Rightarrow> replicate 16 0)
            @ [ucast (drop_bit 8 port), ucast port]"
proof (cases "To16 ip")
  case None
  have c: "copy_slice ([0x05, rep, 0x00, 0x04] @ replicate 18 (0::byte)) 4 20 []
             = [0x05, rep, 0x00, 0x04] @ replicate 16 0 @ replicate 2 0"
    by (simp add: copy_slice_def replicate_add [symmetric])
  have p: "take (20 + 2) (PutUint16 (([0x05, rep, 0x00, 0x04] @ replicate 16 0) @ replicate 2 0) 20 port)
             = ([0x05, rep, 0x00, 0x04] @ replicate 16 0) @ [ucast (drop_bit 8 port), ucast port]"
    by (rule PutUint16_tail) simp_all
  show ?thesis
    using assms None c p
    by (simp add: sendReply_buf_def reply_buf0 socks5_consts)
next
  case (Some v6)
  have l: "length v6 = 16" by (rule To16_length [OF Some])
  have c: "copy_slice ([0x05, rep, 0x00, 0x04] @ replicate 18 (0::byte)) 4 20 v6
             = [0x05, rep, 0x00, 0x04] @ v6 @ replicate 2 0"
    using copy_slice_addr [of "[0x05, rep, 0x00, 0x04]" v6 16] l by simp
  have p: "take (20 + 2) (PutUint16 (([0x05, rep, 0x00, 0x04] @ v6) @ replicate 2 0) 20 port)
             = ([0x05, rep, 0x00, 0x04] @ v6) @ [ucast (drop_bit 8 port), ucast port]"
    by (rule PutUint16_tail) (simp_all add: l)
  show ?thesis
    using assms Some c p
    by (simp add: sendReply_buf_def reply_buf0 socks5_consts)
qed

lemma big_endian_bytes:
  "256 * unat (ucast (drop_bit 8 p) :: byte) + unat (ucast p :: byte) = unat (p :: 16 word)"
proof -
  have lt: "unat p < 65536" using unsigned_less [of p, where ?'a = nat] by simp
  have a: "unat (ucast (drop_bit 8 p) :: byte) = unat p div 256"
  proof -
    have "unat p div 256 < 256" using lt by simp
    then show ?thesis
      by (simp add: unsigned_ucast_eq unat_drop_bit_eq drop_bit_eq_div take_bit_eq_mod unat_div_distrib)
  qed
  have b: "unat (ucast p :: byte) = unat p mod 256"
    by (simp add: unsigned_ucast_eq take_bit_eq_mod)
  show ?thesis by (simp add: a b)
qed

lemma Uint16_add:
  "Uint16 [hi, lo] = push_bit 8 (ucast hi) + ucast lo"
proof -
  have "push_bit 8 (ucast hi :: 16 word) + ucast lo = push_bit 8 (ucast hi) OR ucast lo"
    by (rule disjunctive_add) (auto simp: bit_push_bit_iff bit_ucast_iff dest: bit_imp_le_length)
  then show ?thesis by (simp add: Uint16_def or.commute)
qed

lemma Uint16_big_endian:
  "unat (Uint16 [hi, lo]) = 256 * unat hi + unat lo"
proof -
  have h: "unat hi < 256" using unsigned_less [of hi, where ?'a = nat] by simp
  have l: "unat lo < 256" using unsigned_less [of lo, where ?'a = nat] by simp
  have ul: "unat (ucast lo :: 16 word) = unat lo"
    using l by (simp add: unsigned_ucast_eq take_bit_eq_mod)
  have uh: "unat (ucast hi :: 16 word) = unat hi"
    using h by (simp add: unsigned_ucast_eq take_bit_eq_mod)
  have ph: "unat (push_bit 8 (ucast hi :: 16 word)) = 256 * unat hi"
  proof -
    have "unat (push_bit 8 (ucast hi :: 16 word)) = take_bit 16 (push_bit 8 (unat hi))"
      by (simp only: unsigned_push_bit_eq uh) simp
    also have "\<dots> = (unat hi * 256) mod 65536"
      by (simp only: take_bit_eq_mod push_bit_eq_mult) simp
    also have "\<dots> = 256 * unat hi" using h by simp
    finally show ?thesis .
  qed
  have "unat (push_bit 8 (ucast hi :: 16 word) + ucast lo) = (256 * unat hi + unat lo) mod 65536"
    by (simp only: unat_word_ariths ph ul) simp
  also have "\<dots> = 256 * unat hi + unat lo" using h l by simp
  finally show ?thesis by (simp only: Uint16_add)
qed

subsection \<open>The events of each part of the handler\<close>

lemma ReadFull_keeps:
  assumes "ReadFull c n = (r, c')"
  shows "events c' = events c" and "nwrites c' = nwrites c"
  using assms by (auto simp: ReadFull_def split: if_splits)

lemma ReadFull_Some_length: "ReadFull c n = (Some bs, c') \<Longrightarrow> length bs = n"
  by (auto simp: ReadFull_def split: if_splits)

lemma sendReply_buf_nil:
  "sendReply_buf rep None 0 = [0x05, rep, 0x00, 0x01, 0, 0, 0, 0, 0, 0]"
  by (simp add: sendReply_buf_def PutUint16_def socks5_consts numeral_eq_Suc)

lemma sendReply_nil:
  "sendReply E c rep None 0 =
     c\<lparr>nwrites := Suc (nwrites c),
       events := events c @ [Write [0x05, rep, 0x00, 0x01, 0, 0, 0, 0, 0, 0] (write_ok E (nwrites c))]\<rparr>"
  by (simp add: sendReply_def conn_Write_def sendReply_buf_nil Let_def)

lemma sendReply_events:
  "events (sendReply E c rep ip p) = events c @ [Write (sendReply_buf rep ip p) (write_ok E (nwrites c))]"
  by (simp add: sendReply_def conn_Write_def Let_def)

lemma conn_Write_eq:
  "conn_Write E c bs = (write_ok E (nwrites c),
     c\<lparr>nwrites := Suc (nwrites c), events := events c @ [Write bs (write_ok E (nwrites c))]\<rparr>)"
  by (simp add: conn_Write_def Let_def)

lemma auth_negotiation_cases:
  assumes "auth_negotiation E c = (b, c')"
  shows "(\<not> b \<and> events c' = events c)
       \<or> (\<not> b \<and> events c' = events c @ [Write [0x05, 0xFF] (write_ok E (nwrites c))])
       \<or> (\<not> b \<and> events c' = events c @ [Write [0x05, 0x00] False])
       \<or> (b \<and> events c' = events c @ [Write [0x05, 0x00] True] \<and> nwrites c' = Suc (nwrites c))"
proof (cases "ReadFull c 2")
  case (Pair h c1)
  note k1 = ReadFull_keeps [OF Pair]
  show ?thesis
  proof (cases h)
    case None
    with Pair assms k1 show ?thesis by (simp add: auth_negotiation_def)
  next
    case (Some hdr)
    show ?thesis
    proof (cases "hdr ! 0 \<noteq> socks5Version \<or> unat (hdr ! 1) = 0 \<or> unat (hdr ! 1) > 255")
      case True
      with Pair Some assms k1 show ?thesis
        by (auto simp: auth_negotiation_def Let_def split: if_splits)
    next
      case ok: False
      obtain ms c2 where r2: "ReadFull c1 (unat (hdr ! 1)) = (ms, c2)" by force
      note k2 = ReadFull_keeps [OF r2]
      show ?thesis
      proof (cases ms)
        case None
        with Pair Some assms k1 k2 ok r2 show ?thesis
          by (simp add: auth_negotiation_def Let_def)
      next
        case (Some methods)
        show ?thesis
        proof (cases "hasNoAuth methods")
          case False
          with Pair \<open>h = Some hdr\<close> Some assms k1 k2 ok r2 show ?thesis
            by (auto simp add: auth_negotiation_def Let_def conn_Write_eq socks5_consts)
        next
          case True
          with Pair \<open>h = Some hdr\<close> Some assms k1 k2 ok r2 show ?thesis
            by (cases "write_ok E (nwrites c)")
               (auto simp add: auth_negotiation_def Let_def conn_Write_eq socks5_consts)
        qed
      qed
    qed
  qed
qed


lemma parse_dest_cases:
  assumes "parse_dest E c atyp = (r, c')"
  shows "(r = None \<and> events c' = events c)
       \<or> (r = None \<and> (\<exists>rep. (rep = 0x01 \<or> rep = 0x08) \<and> events c' = events c @
              [Write [0x05, rep, 0x00, 0x01, 0, 0, 0, 0, 0, 0] (write_ok E (nwrites c))]))
       \<or> (r \<noteq> None \<and> events c' = events c \<and> nwrites c' = nwrites c)"
proof -
  consider (v4) "atyp = atypIPv4" | (dom) "atyp = atypDomain" | (v6) "atyp = atypIPv6"
    | (other) "atyp \<noteq> atypIPv4" "atyp \<noteq> atypDomain" "atyp \<noteq> atypIPv6" by blast
  then show ?thesis
  proof cases
    case v4
    obtain a c1 where r1: "ReadFull c 4 = (a, c1)" by force
    from assms v4 r1 ReadFull_keeps [OF r1] show ?thesis
      by (cases a) (auto simp: parse_dest_def)
  next
    case v6
    obtain a c1 where r1: "ReadFull c 16 = (a, c1)" by force
    from assms v6 r1 ReadFull_keeps [OF r1] show ?thesis
      by (cases a) (auto simp: parse_dest_def socks5_consts)
  next
    case other
    with assms show ?thesis
      by (auto simp: parse_dest_def sendReply_nil socks5_consts)
  next
    case dom
    obtain l c1 where r1: "ReadFull c 1 = (l, c1)" by force
    note k1 = ReadFull_keeps [OF r1]
    show ?thesis
    proof (cases l)
      case None
      with assms dom r1 k1 show ?thesis
        by (auto simp: parse_dest_def socks5_consts)
    next
      case (Some domainLen)
      show ?thesis
      proof (cases "domainLen ! 0 = 0")
        case True
        with assms dom r1 k1 Some show ?thesis
          by (auto simp: parse_dest_def sendReply_nil socks5_consts)
      next
        case False
        obtain d c2 where r2: "ReadFull c1 (unat (domainLen ! 0)) = (d, c2)" by force
        from assms dom r1 k1 Some False r2 ReadFull_keeps [OF r2] show ?thesis
          by (cases d) (auto simp: parse_dest_def socks5_consts)
      qed
    qed
  qed
qed

lemma read_request_cases:
  assumes "read_request E c = (r, c')"
  shows "(r = None \<and> events c' = events c)
       \<or> (r = None \<and> (\<exists>rep. (rep = 0x01 \<or> rep = 0x07 \<or> rep = 0x08) \<and> events c' = events c @
              [Write [0x05, rep, 0x00, 0x01, 0, 0, 0, 0, 0, 0] (write_ok E (nwrites c))]))
       \<or> (r \<noteq> None \<and> events c' = events c \<and> nwrites c' = nwrites c)"
proof -
  obtain h c1 where r1: "ReadFull c 4 = (h, c1)" by force
  note k1 = ReadFull_keeps [OF r1]
  show ?thesis
  proof (cases h)
    case None
    with assms r1 k1 show ?thesis by (simp add: read_request_def)
  next
    case (Some reqHdr)
    show ?thesis
    proof (cases "reqHdr ! 0 \<noteq> socks5Version")
      case True
      with assms r1 k1 Some show ?thesis by (auto simp: read_request_def)
    next
      case v: False
      show ?thesis
      proof (cases "reqHdr ! 1 \<noteq> cmdConnect")
        case True
        with assms r1 k1 Some v show ?thesis
          by (auto simp: read_request_def sendReply_nil socks5_consts)
      next
        case cm: False
        obtain d c2 where pd: "parse_dest E c1 (reqHdr ! 3) = (d, c2)" by force
        note pc = parse_dest_cases [OF pd, unfolded k1]
        show ?thesis
        proof (cases d)
          case None
          with assms r1 Some v cm pd have "r = None" "c' = c2"
            by (auto simp: read_request_def)
          with pc None show ?thesis by auto
        next
          case dd: (Some dst)
          with pc have k2: "events c2 = events c" "nwrites c2 = nwrites c" by auto
          obtain p c3 where r3: "ReadFull c2 2 = (p, c3)" by force
          from assms r1 Some v cm pd dd r3 ReadFull_keeps [OF r3] k2 show ?thesis
            by (cases p) (auto simp: read_request_def)
        qed
      qed
    qed
  qed
qed

lemma dial_outbound_events:
  "events (dial_outbound E c ip t) = events c @
     (case dial E ip t of
        DialErr err \<Rightarrow>
          [Dial ip t,
           Write [0x05, dial_failure_rep err, 0x00, 0x01, 0, 0, 0, 0, 0, 0] (write_ok E (nwrites c))]
      | DialOk a \<Rightarrow>
          [Dial ip t,
           Write (sendReply_buf repSuccess (addrIP a) (word_of_int (addrPort a))) (write_ok E (nwrites c)),
           ClearDeadlines, Relay, CloseRemote])"
  by (cases "dial E ip t")
     (simp_all add: dial_outbound_def log_event_def sendReply_nil sendReply_events Let_def)


lemma handleConnection_traces:
  fixes E inp oip
  defines "tr \<equiv> events (handleConnection E (accepted inp) oip)"
  obtains
    (silent) "tr = [SetDeadline, CloseClient]"
  | (no_method) "tr = [SetDeadline, Write [0x05, 0xFF] (write_ok E 0), CloseClient]"
  | (method_write_failed) "tr = [SetDeadline, Write [0x05, 0x00] False, CloseClient]"
  | (request_dropped) "tr = [SetDeadline, Write [0x05, 0x00] True, CloseClient]"
  | (request_rejected) rep where "rep = 0x01 \<or> rep = 0x07 \<or> rep = 0x08"
      "tr = [SetDeadline, Write [0x05, 0x00] True,
             Write [0x05, rep, 0x00, 0x01, 0, 0, 0, 0, 0, 0] (write_ok E 1), CloseClient]"
  | (dial_failed) t err where "dial E oip t = DialErr err"
      "tr = [SetDeadline, Write [0x05, 0x00] True, Dial oip t,
             Write [0x05, dial_failure_rep err, 0x00, 0x01, 0, 0, 0, 0, 0, 0] (write_ok E 1),
             CloseClient]"
  | (relayed) t a where "dial E oip t = DialOk a"
      "tr = [SetDeadline, Write [0x05, 0x00] True, Dial oip t,
             Write (sendReply_buf repSuccess (addrIP a) (word_of_int (addrPort a))) (write_ok E 1),
             ClearDeadlines, Relay, CloseRemote, CloseClient]"
proof -
  let ?c0 = "log_event SetDeadline (accepted inp)"
  have c0: "events ?c0 = [SetDeadline]" "nwrites ?c0 = 0"
    by (simp_all add: log_event_def accepted_def)
  obtain b c1 where a: "auth_negotiation E ?c0 = (b, c1)" by force
  note ac = auth_negotiation_cases [OF a, unfolded c0]
  show thesis
  proof (cases b)
    case False
    with a have "tr = events c1 @ [CloseClient]"
      by (simp add: tr_def handleConnection_def log_event_def Let_def)
    with ac False show thesis
      using silent no_method method_write_failed by auto
  next
    case True
    with ac have e1: "events c1 = [SetDeadline, Write [0x05, 0x00] True]" and n1: "nwrites c1 = 1"
      by auto
    obtain r c2 where rr: "read_request E c1 = (r, c2)" by force
    note rc = read_request_cases [OF rr, unfolded e1 n1]
    show thesis
    proof (cases r)
      case None
      with a True rr have "tr = events c2 @ [CloseClient]"
        by (simp add: tr_def handleConnection_def log_event_def Let_def)
      with rc None show thesis
        using request_dropped request_rejected by auto
    next
      case (Some t)
      with rc have e2: "events c2 = [SetDeadline, Write [0x05, 0x00] True]" and n2: "nwrites c2 = 1"
        by auto
      from a True rr Some have t: "tr = events (dial_outbound E c2 oip t) @ [CloseClient]"
        by (simp add: tr_def handleConnection_def log_event_def Let_def)
      show thesis
      proof (cases "dial E oip t")
        case (DialErr err)
        with t e2 n2 have "tr = [SetDeadline, Write [0x05, 0x00] True, Dial oip t,
             Write [0x05, dial_failure_rep err, 0x00, 0x01, 0, 0, 0, 0, 0, 0] (write_ok E 1),
             CloseClient]"
          by (simp add: dial_outbound_events)
        with DialErr show thesis by (rule dial_failed)
      next
        case (DialOk a)
        with t e2 n2 have "tr = [SetDeadline, Write [0x05, 0x00] True, Dial oip t,
             Write (sendReply_buf repSuccess (addrIP a) (word_of_int (addrPort a))) (write_ok E 1),
             ClearDeadlines, Relay, CloseRemote, CloseClient]"
          by (simp add: dial_outbound_events)
        with DialOk show thesis by (rule relayed)
      qed
    qed
  qed
qed

subsection \<open>The handler on an input of a given shape\<close>

lemma hasNoAuth_iff: "hasNoAuth ms = (authNone \<in> set ms)"
  by (induction ms) auto

lemma byte_bound: "unat (b :: byte) \<le> 255"
  using unsigned_less [of b, where ?'a = nat] by simp

lemma ReadFull_prefix:
  assumes "length xs = n"
  shows "ReadFull \<lparr>unread = xs @ ys, nwrites = k, events = es\<rparr> n
           = (Some xs, \<lparr>unread = ys, nwrites = k, events = es\<rparr>)"
  using assms by (simp add: ReadFull_def)

lemma ReadFull_short:
  assumes "length xs < n"
  shows "ReadFull \<lparr>unread = xs, nwrites = k, events = es\<rparr> n
           = (None, \<lparr>unread = [], nwrites = k, events = es\<rparr>)"
  using assms by (simp add: ReadFull_def)

lemma auth_negotiation_greeting:
  assumes "n \<noteq> 0" "length methods = unat n"
  shows "auth_negotiation E \<lparr>unread = 0x05 # n # methods @ rest, nwrites = k, events = es\<rparr> =
     (if authNone \<in> set methods
      then (write_ok E k, \<lparr>unread = rest, nwrites = Suc k, events = es @ [Write [0x05, 0x00] (write_ok E k)]\<rparr>)
      else (False, \<lparr>unread = rest, nwrites = Suc k, events = es @ [Write [0x05, 0xFF] (write_ok E k)]\<rparr>))"
proof -
  have r1: "ReadFull \<lparr>unread = 0x05 # n # methods @ rest, nwrites = k, events = es\<rparr> 2
              = (Some [0x05, n], \<lparr>unread = methods @ rest, nwrites = k, events = es\<rparr>)"
    using ReadFull_prefix [of "[0x05, n]" 2 "methods @ rest" k es] by simp
  have r2: "ReadFull \<lparr>unread = methods @ rest, nwrites = k, events = es\<rparr> (unat n)
              = (Some methods, \<lparr>unread = rest, nwrites = k, events = es\<rparr>)"
    using assms(2) by (rule ReadFull_prefix)
  have nz: "unat n \<noteq> 0" using assms(1) by (simp add: unat_eq_0)
  have le: "\<not> 255 < unat n" using byte_bound [of n] by simp
  show ?thesis
    unfolding auth_negotiation_def r1
    using nz le
    by (simp add: r2 Let_def conn_Write_eq hasNoAuth_iff socks5_consts split: bool.splits)
qed


lemma handleConnection_after_greeting:
  assumes "n \<noteq> 0" "length methods = unat n" "authNone \<in> set methods" "write_ok E 0"
  shows "handleConnection E (accepted (0x05 # n # methods @ req)) oip =
     log_event CloseClient
       (case read_request E \<lparr>unread = req, nwrites = 1, events = [SetDeadline, Write [0x05, 0x00] True]\<rparr> of
          (None, c2) \<Rightarrow> c2
        | (Some tgt, c2) \<Rightarrow> dial_outbound E c2 oip tgt)"
  using assms
  by (simp add: handleConnection_def accepted_def log_event_def auth_negotiation_greeting)

lemma handleConnection_greeting_closed:
  assumes "n \<noteq> 0" "length methods = unat n" "authNone \<in> set methods \<longrightarrow> \<not> write_ok E 0"
  shows "handleConnection E (accepted (0x05 # n # methods @ rest)) oip =
     \<lparr>unread = rest, nwrites = 1,
      events = [SetDeadline,
                Write [0x05, if authNone \<in> set methods then 0x00 else 0xFF] (write_ok E 0),
                CloseClient]\<rparr>"
  using assms
  by (simp add: handleConnection_def accepted_def log_event_def auth_negotiation_greeting)

lemma read_request_header:
  "read_request E \<lparr>unread = v # cmd # rsv # atyp # rest, nwrites = k, events = es\<rparr> =
     (if v \<noteq> socks5Version then (None, \<lparr>unread = rest, nwrites = k, events = es\<rparr>)
      else if cmd \<noteq> cmdConnect
      then (None, \<lparr>unread = rest, nwrites = Suc k,
                   events = es @ [Write [0x05, 0x07, 0x00, 0x01, 0, 0, 0, 0, 0, 0] (write_ok E k)]\<rparr>)
      else
        (case parse_dest E \<lparr>unread = rest, nwrites = k, events = es\<rparr> atyp of
           (None, c2) \<Rightarrow> (None, c2)
         | (Some d, c2) \<Rightarrow>
             (case ReadFull c2 2 of
                (None, c3) \<Rightarrow> (None, c3)
              | (Some portBuf, c3) \<Rightarrow> (Some \<lparr>destAddr = d, destPort = Uint16 portBuf\<rparr>, c3))))"
proof -
  have r1: "ReadFull \<lparr>unread = v # cmd # rsv # atyp # rest, nwrites = k, events = es\<rparr> 4
              = (Some [v, cmd, rsv, atyp], \<lparr>unread = rest, nwrites = k, events = es\<rparr>)"
    using ReadFull_prefix [of "[v, cmd, rsv, atyp]" 4 rest k es] by simp
  show ?thesis
    unfolding read_request_def r1
    by (simp add: sendReply_nil socks5_consts)
qed

lemma read_request_short:
  assumes "length req < 4"
  shows "read_request E \<lparr>unread = req, nwrites = k, events = es\<rparr> =
           (None, \<lparr>unread = [], nwrites = k, events = es\<rparr>)"
  using assms by (simp add: read_request_def ReadFull_short)

lemma parse_dest_IPv4:
  "parse_dest E \<lparr>unread = rest, nwrites = k, events = es\<rparr> 0x01 =
     (if 4 \<le> length rest
      then (Some (DestIPv4 (take 4 rest)), \<lparr>unread = drop 4 rest, nwrites = k, events = es\<rparr>)
      else (None, \<lparr>unread = [], nwrites = k, events = es\<rparr>))"
  by (simp add: parse_dest_def ReadFull_def socks5_consts)

lemma parse_dest_IPv6:
  "parse_dest E \<lparr>unread = rest, nwrites = k, events = es\<rparr> 0x04 =
     (if 16 \<le> length rest
      then (Some (DestIPv6 (take 16 rest)), \<lparr>unread = drop 16 rest, nwrites = k, events = es\<rparr>)
      else (None, \<lparr>unread = [], nwrites = k, events = es\<rparr>))"
  by (simp add: parse_dest_def ReadFull_def socks5_consts)

lemma parse_dest_Domain_empty:
  "parse_dest E \<lparr>unread = [], nwrites = k, events = es\<rparr> 0x03 =
     (None, \<lparr>unread = [], nwrites = k, events = es\<rparr>)"
  by (simp add: parse_dest_def ReadFull_def socks5_consts)

lemma parse_dest_Domain:
  "parse_dest E \<lparr>unread = l # rest, nwrites = k, events = es\<rparr> 0x03 =
     (if l = 0
      then (None, \<lparr>unread = rest, nwrites = Suc k,
                   events = es @ [Write [0x05, 0x01, 0x00, 0x01, 0, 0, 0, 0, 0, 0] (write_ok E k)]\<rparr>)
      else if unat l \<le> length rest
      then (Some (DestDomain (take (unat l) rest)),
            \<lparr>unread = drop (unat l) rest, nwrites = k, events = es\<rparr>)
      else (None, \<lparr>unread = [], nwrites = k, events = es\<rparr>))"
  by (simp add: parse_dest_def ReadFull_def sendReply_nil socks5_consts)

lemma parse_dest_other:
  assumes "atyp \<noteq> 0x01" "atyp \<noteq> 0x03" "atyp \<noteq> 0x04"
  shows "parse_dest E \<lparr>unread = rest, nwrites = k, events = es\<rparr> atyp =
     (None, \<lparr>unread = rest, nwrites = Suc k,
             events = es @ [Write [0x05, 0x08, 0x00, 0x01, 0, 0, 0, 0, 0, 0] (write_ok E k)]\<rparr>)"
  using assms by (simp add: parse_dest_def sendReply_nil socks5_consts)

lemma read_port:
  "(case ReadFull \<lparr>unread = rest, nwrites = k, events = es\<rparr> 2 of
      (None, c3) \<Rightarrow> (None, c3)
    | (Some portBuf, c3) \<Rightarrow> (Some \<lparr>destAddr = d, destPort = Uint16 portBuf\<rparr>, c3)) =
   (if 2 \<le> length rest
    then (Some \<lparr>destAddr = d, destPort = Uint16 (take 2 rest)\<rparr>,
          \<lparr>unread = drop 2 rest, nwrites = k, events = es\<rparr>)
    else (None, \<lparr>unread = [], nwrites = k, events = es\<rparr>))"
  by (simp add: ReadFull_def)

lemmas handler_defs =
  handleConnection_def auth_negotiation_def read_request_def parse_dest_def dial_outbound_def
  ReadFull_def conn_Write_def sendReply_nil log_event_def accepted_def
  dial_failure_rep_def Uint16_def Let_def socks5_consts

lemma dial_failure_rep_values:
  "dial_failure_rep err =
     (if err = SyscallError ECONNREFUSED then 0x05
      else if err = SyscallError ENETUNREACH then 0x03
      else if err = SyscallError EHOSTUNREACH then 0x04
      else 0x01)"
proof (cases err)
  case (SyscallError e)
  then show ?thesis
    by (cases e) (simp_all add: dial_failure_rep_def socks5_consts)
qed (simp_all add: dial_failure_rep_def socks5_consts)

subsection \<open>Dial failures\<close>

text \<open>
  C1. Whenever the handler dials and the dial fails, the session's events end with the
  dial, one reply and the close of the client, in this order. The reply's status is
  fixed by the class of the error: 5 for connection refused, 3 for network unreachable,
  4 for host unreachable, 1 for every other error (name resolution among them).
\<close>

theorem dial_failure_reply:
  assumes "Dial oip t \<in> set (events (handleConnection E (accepted inp) oip))"
      and "dial E oip t = DialErr err"
  shows "(\<exists>rep. events (handleConnection E (accepted inp) oip) =
            [SetDeadline, Write [0x05, 0x00] True, Dial oip t,
             Write [0x05, rep, 0x00, 0x01, 0, 0, 0, 0, 0, 0] (write_ok E 1), CloseClient]
          \<and> rep = (if err = SyscallError ECONNREFUSED then 0x05
                   else if err = SyscallError ENETUNREACH then 0x03
                   else if err = SyscallError EHOSTUNREACH then 0x04
                   else 0x01))"
proof (cases rule: handleConnection_traces [of E inp oip])
  case (dial_failed t' err')
  with assms(1) have "t' = t" by simp
  with dial_failed assms(2) have "err' = err" by simp
  with dial_failed \<open>t' = t\<close> show ?thesis
    by (simp add: dial_failure_rep_values)
next
  case (relayed t' a)
  with assms(1) have "t' = t" by simp
  with relayed assms(2) show ?thesis by simp
qed (use assms(1) in simp_all)

theorem dial_failure_reply_witness:
  "events (handleConnection (const_env (\<lambda>_. True) (DialErr (SyscallError ECONNREFUSED)))
       (accepted connect_localhost) None) =
     [SetDeadline, Write [0x05, 0x00] True, Dial None localhost_80,
      Write [0x05, 0x05, 0x00, 0x01, 0, 0, 0, 0, 0, 0] True, CloseClient]
   \<and> events (handleConnection (const_env (\<lambda>_. True) (DialErr DNSError))
       (accepted connect_localhost) None) =
     [SetDeadline, Write [0x05, 0x00] True, Dial None localhost_80,
      Write [0x05, 0x01, 0x00, 0x01, 0, 0, 0, 0, 0, 0] True, CloseClient]"
proof -
  let ?E = "const_env (\<lambda>_. True) (DialErr (SyscallError ECONNREFUSED))"
  let ?D = "const_env (\<lambda>_. True) (DialErr DNSError)"
  have h1: "Dial None localhost_80 \<in> set (events (handleConnection ?E (accepted connect_localhost) None))"
    by (simp add: handler_defs const_env_def connect_localhost_def localhost_80_def)
  have h2: "dial ?E None localhost_80 = DialErr (SyscallError ECONNREFUSED)"
    by (simp add: const_env_def)
  have d1: "Dial None localhost_80 \<in> set (events (handleConnection ?D (accepted connect_localhost) None))"
    by (simp add: handler_defs const_env_def connect_localhost_def localhost_80_def)
  have d2: "dial ?D None localhost_80 = DialErr DNSError"
    by (simp add: const_env_def)
  show ?thesis
    using dial_failure_reply [OF h1 h2] dial_failure_reply [OF d1 d2]
    by (simp add: const_env_def)
qed

subsection \<open>No relay after a failure reply\<close>

lemma sendReply_buf_head: "\<exists>rest. sendReply_buf rep ip port = 0x05 # rep # rest"
proof (cases ip)
  case None
  then show ?thesis by (simp add: sendReply_buf_nil_port)
next
  case (Some bs)
  show ?thesis
  proof (cases "To4 ip")
    case None
    with Some show ?thesis using sendReply_buf_v6 [of ip rep port] by simp
  next
    case (Some v4)
    then show ?thesis using sendReply_buf_v4 [of ip v4 rep port] by simp
  qed
qed

text \<open>
  C7. In every session, a write whose status byte is not success (a failure reply, or
  the rejection of the offered methods) is followed by the close of the client and by
  nothing else, and the session has no relay step at all.
\<close>

theorem failure_reply_ends_session:
  assumes "events (handleConnection E (accepted inp) oip) = pre @ Write (v # st # rest) ok # post"
      and "st \<noteq> repSuccess"
  shows "post = [CloseClient] \<and> Relay \<notin> set (events (handleConnection E (accepted inp) oip))"
proof (cases rule: handleConnection_traces [of E inp oip])
  case (relayed t a)
  obtain r where r: "sendReply_buf repSuccess (addrIP a) (word_of_int (addrPort a)) = 0x05 # repSuccess # r"
    using sendReply_buf_head by blast
  from relayed(2) assms show ?thesis
    unfolding r
    by (auto simp: append_eq_Cons_conv Cons_eq_append_conv socks5_consts)
qed (use assms in \<open>auto simp: append_eq_Cons_conv Cons_eq_append_conv socks5_consts\<close>)

theorem failure_reply_ends_session_witness:
  "events (handleConnection (const_env (\<lambda>_. True) (DialErr (SyscallError ECONNREFUSED)))
       (accepted connect_localhost) None) =
     [SetDeadline, Write [0x05, 0x00] True, Dial None localhost_80]
       @ Write (0x05 # 0x05 # [0x00, 0x01, 0, 0, 0, 0, 0, 0]) True # [CloseClient]
   \<and> (0x05 :: byte) \<noteq> repSuccess
   \<and> Relay \<notin> set (events (handleConnection
         (const_env (\<lambda>_. True) (DialErr (SyscallError ECONNREFUSED)))
         (accepted connect_localhost) None))"
proof -
  let ?E = "const_env (\<lambda>_. True) (DialErr (SyscallError ECONNREFUSED))"
  have h1: "events (handleConnection ?E (accepted connect_localhost) None) =
     [SetDeadline, Write [0x05, 0x00] True, Dial None localhost_80]
       @ Write (0x05 # 0x05 # [0x00, 0x01, 0, 0, 0, 0, 0, 0]) True # [CloseClient]"
    by (simp add: handler_defs const_env_def connect_localhost_def localhost_80_def)
  have h2: "(0x05 :: byte) \<noteq> repSuccess" by (simp add: repSuccess_def)
  from failure_reply_ends_session [OF h1 h2] h1 h2 show ?thesis by simp
qed

subsection \<open>The success reply\<close>

text \<open>
  C10. After a successful dial the handler writes the success reply and goes on to
  clear the deadlines and to relay whatever the write returned: the events are the same
  for a write that succeeds and for one that fails, up to the logged outcome.
\<close>

theorem success_reply_write_unchecked:
  assumes "Dial oip t \<in> set (events (handleConnection E (accepted inp) oip))"
      and "dial E oip t = DialOk a"
  shows "events (handleConnection E (accepted inp) oip) =
           [SetDeadline, Write [0x05, 0x00] True, Dial oip t,
            Write (sendReply_buf repSuccess (addrIP a) (word_of_int (addrPort a))) (write_ok E 1),
            ClearDeadlines, Relay, CloseRemote, CloseClient]"
proof (cases rule: handleConnection_traces [of E inp oip])
  case (dial_failed t' err)
  with assms(1) have "t' = t" by simp
  with dial_failed assms(2) show ?thesis by simp
next
  case (relayed t' a')
  with assms(1) have "t' = t" by simp
  with relayed assms(2) show ?thesis by simp
qed (use assms(1) in simp_all)

theorem success_reply_write_unchecked_witness:
  "events (handleConnection (const_env (\<lambda>k. k = 0) (DialOk bound_v6))
       (accepted connect_localhost) None) =
     [SetDeadline, Write [0x05, 0x00] True, Dial None localhost_80,
      Write [0x05, 0x00, 0x00, 0x04,
             0x20, 0x01, 0x0d, 0xb8, 0, 0, 0, 0, 0, 0, 0, 0, 0, 0, 0, 1, 0x9C, 0x40] False,
      ClearDeadlines, Relay, CloseRemote, CloseClient]"
proof -
  let ?E = "const_env (\<lambda>k. k = 0) (DialOk bound_v6)"
  have h1: "Dial None localhost_80 \<in> set (events (handleConnection ?E (accepted connect_localhost) None))"
    by code_simp
  have h2: "dial ?E None localhost_80 = DialOk bound_v6"
    by (simp add: const_env_def)
  have b: "sendReply_buf repSuccess (addrIP bound_v6) (word_of_int (addrPort bound_v6)) =
      [0x05, 0x00, 0x00, 0x04,
       0x20, 0x01, 0x0d, 0xb8, 0, 0, 0, 0, 0, 0, 0, 0, 0, 0, 0, 1, 0x9C, 0x40]"
    by code_simp
  show ?thesis
    using success_reply_write_unchecked [OF h1 h2]
    by (simp add: b const_env_def)
qed

subsection \<open>The wire shape of a reply\<close>

text \<open>
  C2. The bytes \<^verbatim>\<open>sendReply\<close> writes are version 5, the status, a zero byte, the address
  type, the bound address and the port in two bytes, high byte first. With no bound
  address the type is 1 and the address four zero bytes; with an address that has an
  IPv4 form the type is 1 and the address those four bytes; otherwise the type is 4 and
  the address sixteen bytes (the address itself when it has sixteen). Every write of a
  session is a method selection, a reply without bound address and with port zero (ten
  bytes), or the success reply with the dialer's bound address.
\<close>

theorem reply_wire_shape:
  "(\<exists>atyp addr.
      sendReply_buf rep bindIP bindPort =
        [0x05, rep, 0x00, atyp] @ addr @ [ucast (drop_bit 8 bindPort), ucast bindPort]
      \<and> 256 * unat (ucast (drop_bit 8 bindPort) :: byte) + unat (ucast bindPort :: byte)
            = unat bindPort
      \<and> (case bindIP of
            None \<Rightarrow> atyp = 0x01 \<and> addr = [0, 0, 0, 0]
          | Some bs \<Rightarrow>
              (case To4 bindIP of
                 Some v4 \<Rightarrow> atyp = 0x01 \<and> addr = v4 \<and> length addr = 4
               | None \<Rightarrow> atyp = 0x04 \<and> length addr = 16 \<and> (length bs = 16 \<longrightarrow> addr = bs))))
   \<and> (\<forall>E inp oip bs ok.
         Write bs ok \<in> set (events (handleConnection E (accepted inp) oip)) \<longrightarrow>
           bs = [0x05, 0x00] \<or> bs = [0x05, 0xFF]
         \<or> (\<exists>st. bs = sendReply_buf st None 0 \<and> bs = [0x05, st, 0x00, 0x01, 0, 0, 0, 0, 0, 0])
         \<or> (\<exists>t a. dial E oip t = DialOk a
               \<and> bs = sendReply_buf repSuccess (addrIP a) (word_of_int (addrPort a))))"
proof (intro conjI allI impI)
  show "\<exists>atyp addr.
      sendReply_buf rep bindIP bindPort =
        [0x05, rep, 0x00, atyp] @ addr @ [ucast (drop_bit 8 bindPort), ucast bindPort]
      \<and> 256 * unat (ucast (drop_bit 8 bindPort) :: byte) + unat (ucast bindPort :: byte)
            = unat bindPort
      \<and> (case bindIP of
            None \<Rightarrow> atyp = 0x01 \<and> addr = [0, 0, 0, 0]
          | Some bs \<Rightarrow>
              (case To4 bindIP of
                 Some v4 \<Rightarrow> atyp = 0x01 \<and> addr = v4 \<and> length addr = 4
               | None \<Rightarrow> atyp = 0x04 \<and> length addr = 16 \<and> (length bs = 16 \<longrightarrow> addr = bs)))"
  proof (cases bindIP)
    case None
    then show ?thesis
      by (simp add: sendReply_buf_nil_port big_endian_bytes)
  next
    case (Some bs)
    show ?thesis
    proof (cases "To4 bindIP")
      case v4: (Some v4)
      have "sendReply_buf rep bindIP bindPort =
              [0x05, rep, 0x00, 0x01] @ v4 @ [ucast (drop_bit 8 bindPort), ucast bindPort]"
        by (rule sendReply_buf_v4 [OF v4])
      with Some v4 To4_length [OF v4] show ?thesis
        by (simp add: big_endian_bytes)
    next
      case None
      let ?a = "case To16 bindIP of Some v6 \<Rightarrow> v6 | None \<Rightarrow> replicate 16 0"
      have s: "sendReply_buf rep bindIP bindPort =
              [0x05, rep, 0x00, 0x04] @ ?a @ [ucast (drop_bit 8 bindPort), ucast bindPort]"
        using Some None by (intro sendReply_buf_v6) simp_all
      have l: "length ?a = 16"
        by (cases "To16 bindIP") (simp_all add: To16_length)
      have e: "length bs = 16 \<longrightarrow> ?a = bs"
        using Some by (simp add: To16_def)
      from s l e Some None show ?thesis
        by (simp add: big_endian_bytes)
    qed
  qed
next
  fix E inp oip bs ok
  assume w: "Write bs ok \<in> set (events (handleConnection E (accepted inp) oip))"
  show "bs = [0x05, 0x00] \<or> bs = [0x05, 0xFF]
         \<or> (\<exists>st. bs = sendReply_buf st None 0 \<and> bs = [0x05, st, 0x00, 0x01, 0, 0, 0, 0, 0, 0])
         \<or> (\<exists>t a. dial E oip t = DialOk a
               \<and> bs = sendReply_buf repSuccess (addrIP a) (word_of_int (addrPort a)))"
  proof (cases rule: handleConnection_traces [of E inp oip])
    case (relayed t a)
    with w show ?thesis by auto
  qed (use w in \<open>auto simp: sendReply_buf_nil\<close>)
qed

theorem reply_wire_shape_witness:
  "sendReply_buf 0x00 (Some [192, 168, 1, 2]) 8080 = [0x05, 0x00, 0x00, 0x01, 192, 168, 1, 2, 0x1F, 0x90]
   \<and> sendReply_buf 0x00 (addrIP bound_v6) 40000 =
        [0x05, 0x00, 0x00, 0x04,
         0x20, 0x01, 0x0d, 0xb8, 0, 0, 0, 0, 0, 0, 0, 0, 0, 0, 0, 1, 0x9C, 0x40]
   \<and> sendReply_buf 0x05 None 0 = [0x05, 0x05, 0x00, 0x01, 0, 0, 0, 0, 0, 0]
   \<and> Write (sendReply_buf 0x05 None 0) True \<in> set (events (handleConnection
         (const_env (\<lambda>_. True) (DialErr (SyscallError ECONNREFUSED)))
         (accepted connect_localhost) None))"
proof -
  let ?E = "const_env (\<lambda>_. True) (DialErr (SyscallError ECONNREFUSED))"
  have t4: "To4 (Some [192, 168, 1, 2]) = Some [192, 168, 1, 2]"
    by (simp add: To4_def)
  have t6: "To4 (Some [0x20, 0x01, 0x0d, 0xb8, 0, 0, 0, 0, 0, 0, 0, 0, 0, 0, 0, 1]) = None"
    by (simp add: To4_def v4InV6Prefix_def)
  have w: "Write [0x05, 0x05, 0x00, 0x01, 0, 0, 0, 0, 0, 0] True
             \<in> set (events (handleConnection ?E (accepted connect_localhost) None))"
    by (simp add: handler_defs const_env_def connect_localhost_def)
  have d: "dial ?E None t \<noteq> DialOk a" for t a
    by (simp add: const_env_def)
  from reply_wire_shape [of "0x00" "Some [192, 168, 1, 2]" 8080]
  have a: "sendReply_buf 0x00 (Some [192, 168, 1, 2]) 8080 = [0x05, 0x00, 0x00, 0x01, 192, 168, 1, 2, 0x1F, 0x90]"
    by (auto simp: t4)
  from reply_wire_shape [of "0x00" "addrIP bound_v6" 40000]
  have b: "sendReply_buf 0x00 (addrIP bound_v6) 40000 =
        [0x05, 0x00, 0x00, 0x04,
         0x20, 0x01, 0x0d, 0xb8, 0, 0, 0, 0, 0, 0, 0, 0, 0, 0, 0, 1, 0x9C, 0x40]"
    by (auto simp: t6 bound_v6_def)
  from reply_wire_shape [of "0x05" None 0] w d
  have c: "sendReply_buf 0x05 None 0 = [0x05, 0x05, 0x00, 0x01, 0, 0, 0, 0, 0, 0]"
    by auto
  from a b c w show ?thesis by simp
qed

subsection \<open>Method selection\<close>

text \<open>
  C3, as stated, fails where the write of the method selection fails: the handler
  checks that write and returns, so it does not go on to the request although no-auth
  was offered. Here the client offers no-auth, the write fails, and the request bytes
  stay unread.
\<close>

theorem greeting_write_failure_counterexample:
  "authNone \<in> set [0x00]
   \<and> auth_negotiation (const_env (\<lambda>_. False) (DialOk bound_v6))
         (log_event SetDeadline (accepted connect_localhost)) =
       (False, \<lparr>unread = [5, 1, 0, 1, 127, 0, 0, 1, 0, 80], nwrites = 1,
                events = [SetDeadline, Write [0x05, 0x00] False]\<rparr>)
   \<and> handleConnection (const_env (\<lambda>_. False) (DialOk bound_v6)) (accepted connect_localhost) None =
       \<lparr>unread = [5, 1, 0, 1, 127, 0, 0, 1, 0, 80], nwrites = 1,
        events = [SetDeadline, Write [0x05, 0x00] False, CloseClient]\<rparr>"
  by (simp add: handler_defs const_env_def connect_localhost_def)

text \<open>
  C3, amended. For a well-formed greeting (version 5, N \<ge> 1 methods, all read): when
  no-auth is among the methods the handler writes 05 00 and, if that write succeeds,
  goes on to read the request from the bytes that follow; if the write fails it closes
  with those bytes unread. When no-auth is not among the methods it writes 05 FF and
  closes, with the bytes that follow unread.
\<close>

theorem greeting_method_selection:
  assumes "n \<noteq> 0" and "length methods = unat n"
  shows "(authNone \<in> set methods \<and> write_ok E 0 \<longrightarrow>
            handleConnection E (accepted (0x05 # n # methods @ rest)) oip =
              log_event CloseClient
                (case read_request E
                        \<lparr>unread = rest, nwrites = 1,
                         events = [SetDeadline, Write [0x05, 0x00] True]\<rparr> of
                   (None, c2) \<Rightarrow> c2
                 | (Some tgt, c2) \<Rightarrow> dial_outbound E c2 oip tgt))
       \<and> (authNone \<in> set methods \<and> \<not> write_ok E 0 \<longrightarrow>
            handleConnection E (accepted (0x05 # n # methods @ rest)) oip =
              \<lparr>unread = rest, nwrites = 1,
               events = [SetDeadline, Write [0x05, 0x00] False, CloseClient]\<rparr>)
       \<and> (authNone \<notin> set methods \<longrightarrow>
            handleConnection E (accepted (0x05 # n # methods @ rest)) oip =
              \<lparr>unread = rest, nwrites = 1,
               events = [SetDeadline, Write [0x05, 0xFF] (write_ok E 0), CloseClient]\<rparr>)"
proof (intro conjI impI)
  assume "authNone \<in> set methods \<and> write_ok E 0"
  with assms show "handleConnection E (accepted (0x05 # n # methods @ rest)) oip =
              log_event CloseClient
                (case read_request E
                        \<lparr>unread = rest, nwrites = 1,
                         events = [SetDeadline, Write [0x05, 0x00] True]\<rparr> of
                   (None, c2) \<Rightarrow> c2
                 | (Some tgt, c2) \<Rightarrow> dial_outbound E c2 oip tgt)"
    by (simp add: handleConnection_after_greeting)
next
  assume "authNone \<in> set methods \<and> \<not> write_ok E 0"
  with assms handleConnection_greeting_closed [of n methods E rest oip]
  show "handleConnection E (accepted (0x05 # n # methods @ rest)) oip =
              \<lparr>unread = rest, nwrites = 1,
               events = [SetDeadline, Write [0x05, 0x00] False, CloseClient]\<rparr>"
    by simp
next
  assume "authNone \<notin> set methods"
  with assms handleConnection_greeting_closed [of n methods E rest oip]
  show "handleConnection E (accepted (0x05 # n # methods @ rest)) oip =
              \<lparr>unread = rest, nwrites = 1,
               events = [SetDeadline, Write [0x05, 0xFF] (write_ok E 0), CloseClient]\<rparr>"
    by simp
qed

theorem greeting_method_selection_witness:
  "events (handleConnection (const_env (\<lambda>_. True) (DialErr DNSError))
      (accepted ([0x05, 0x03, 0x02, 0x00, 0x01] @ [0x05, 0x02, 0x00, 0x01])) None) =
     [SetDeadline, Write [0x05, 0x00] True,
      Write [0x05, 0x07, 0x00, 0x01, 0, 0, 0, 0, 0, 0] True, CloseClient]
   \<and> handleConnection (const_env (\<lambda>_. False) (DialErr DNSError))
      (accepted ([0x05, 0x03, 0x02, 0x00, 0x01] @ [0x05, 0x02, 0x00, 0x01])) None =
     \<lparr>unread = [0x05, 0x02, 0x00, 0x01], nwrites = 1,
      events = [SetDeadline, Write [0x05, 0x00] False, CloseClient]\<rparr>
   \<and> handleConnection (const_env (\<lambda>_. True) (DialErr DNSError))
      (accepted ([0x05, 0x02, 0x02, 0x01] @ [0x05, 0x01, 0x00, 0x01])) None =
     \<lparr>unread = [0x05, 0x01, 0x00, 0x01], nwrites = 1,
      events = [SetDeadline, Write [0x05, 0xFF] True, CloseClient]\<rparr>"
proof -
  let ?T = "const_env (\<lambda>_. True) (DialErr DNSError)"
  let ?F = "const_env (\<lambda>_. False) (DialErr DNSError)"
  have n3: "(0x03 :: byte) \<noteq> 0" "length [0x02, 0x00, 0x01 :: byte] = unat (0x03 :: byte)"
    by simp_all
  have n2: "(0x02 :: byte) \<noteq> 0" "length [0x02, 0x01 :: byte] = unat (0x02 :: byte)"
    by simp_all
  note a = greeting_method_selection [OF n3, of ?T "[0x05, 0x02, 0x00, 0x01]" None]
  note b = greeting_method_selection [OF n3, of ?F "[0x05, 0x02, 0x00, 0x01]" None]
  note c = greeting_method_selection [OF n2, of ?T "[0x05, 0x01, 0x00, 0x01]" None]
  have 1: "events (handleConnection ?T
      (accepted ([0x05, 0x03, 0x02, 0x00, 0x01] @ [0x05, 0x02, 0x00, 0x01])) None) =
     [SetDeadline, Write [0x05, 0x00] True,
      Write [0x05, 0x07, 0x00, 0x01, 0, 0, 0, 0, 0, 0] True, CloseClient]"
    using a by (simp add: const_env_def authNone_def read_request_header log_event_def socks5_consts)
  have 2: "handleConnection ?F
      (accepted ([0x05, 0x03, 0x02, 0x00, 0x01] @ [0x05, 0x02, 0x00, 0x01])) None =
     \<lparr>unread = [0x05, 0x02, 0x00, 0x01], nwrites = 1,
      events = [SetDeadline, Write [0x05, 0x00] False, CloseClient]\<rparr>"
    using b by (simp add: const_env_def authNone_def)
  have 3: "handleConnection ?T
      (accepted ([0x05, 0x02, 0x02, 0x01] @ [0x05, 0x01, 0x00, 0x01])) None =
     \<lparr>unread = [0x05, 0x01, 0x00, 0x01], nwrites = 1,
      events = [SetDeadline, Write [0x05, 0xFF] True, CloseClient]\<rparr>"
    using c by (simp add: const_env_def authNone_def)
  from 1 2 3 show ?thesis by blast
qed

subsection \<open>Commands other than CONNECT\<close>

text \<open>
  C4. After an accepted greeting, a request with version 5 and a command byte other than
  1 gets the reply with status 7 and the client is closed; the session has no dial.
\<close>

theorem command_not_supported:
  assumes "n \<noteq> 0" and "length methods = unat n" and "authNone \<in> set methods"
      and "write_ok E 0" and "cmd \<noteq> cmdConnect"
  shows "handleConnection E (accepted (0x05 # n # methods @ 0x05 # cmd # rsv # atyp # rest)) oip =
           \<lparr>unread = rest, nwrites = 2,
            events = [SetDeadline, Write [0x05, 0x00] True,
                      Write [0x05, 0x07, 0x00, 0x01, 0, 0, 0, 0, 0, 0] (write_ok E 1),
                      CloseClient]\<rparr>
       \<and> (\<forall>ip t. Dial ip t \<notin> set (events (handleConnection E
              (accepted (0x05 # n # methods @ 0x05 # cmd # rsv # atyp # rest)) oip)))"
proof -
  have "handleConnection E (accepted (0x05 # n # methods @ 0x05 # cmd # rsv # atyp # rest)) oip =
           \<lparr>unread = rest, nwrites = 2,
            events = [SetDeadline, Write [0x05, 0x00] True,
                      Write [0x05, 0x07, 0x00, 0x01, 0, 0, 0, 0, 0, 0] (write_ok E 1),
                      CloseClient]\<rparr>"
    using assms
    by (simp add: handleConnection_after_greeting read_request_header log_event_def
                  socks5Version_def)
  then show ?thesis by simp
qed

theorem command_not_supported_witness:
  "handleConnection (const_env (\<lambda>_. True) (DialOk bound_v6))
     (accepted (0x05 # 0x01 # [0x00] @ 0x05 # 0x02 # 0x00 # 0x01 # [127, 0, 0, 1, 0, 80])) None =
     \<lparr>unread = [127, 0, 0, 1, 0, 80], nwrites = 2,
      events = [SetDeadline, Write [0x05, 0x00] True,
                Write [0x05, 0x07, 0x00, 0x01, 0, 0, 0, 0, 0, 0] True, CloseClient]\<rparr>"
proof -
  let ?E = "const_env (\<lambda>_. True) (DialOk bound_v6)"
  have h: "(0x01 :: byte) \<noteq> 0" "length [0x00 :: byte] = unat (0x01 :: byte)"
    "authNone \<in> set [0x00]" "write_ok ?E 0" "(0x02 :: byte) \<noteq> cmdConnect"
    by (simp_all add: authNone_def const_env_def cmdConnect_def)
  from command_not_supported [OF h, of "0x00" "0x01" "[127, 0, 0, 1, 0, 80]" None]
  show ?thesis by (simp add: const_env_def)
qed

subsection \<open>Parsing the destination\<close>

text \<open>
  C5. A CONNECT request is parsed by its address type: type 1 takes exactly 4 address
  bytes, type 3 a length byte and exactly that many name bytes (length zero: reply with
  status 1, nothing more read), type 4 exactly 16 address bytes, any other type gets the
  reply with status 8; after an accepted address exactly two port bytes are taken, the
  first being the high byte. What follows stays unread.
\<close>

theorem request_destination_parsing:
  "(length a = 4 \<longrightarrow>
      read_request E \<lparr>unread = [0x05, 0x01, rsv, 0x01] @ a @ [p1, p0] @ rest, nwrites = k, events = es\<rparr>
        = (Some \<lparr>destAddr = DestIPv4 a, destPort = Uint16 [p1, p0]\<rparr>,
           \<lparr>unread = rest, nwrites = k, events = es\<rparr>))
   \<and> (l \<noteq> 0 \<and> length name = unat l \<longrightarrow>
      read_request E \<lparr>unread = [0x05, 0x01, rsv, 0x03] @ l # name @ [p1, p0] @ rest, nwrites = k, events = es\<rparr>
        = (Some \<lparr>destAddr = DestDomain name, destPort = Uint16 [p1, p0]\<rparr>,
           \<lparr>unread = rest, nwrites = k, events = es\<rparr>))
   \<and> read_request E \<lparr>unread = [0x05, 0x01, rsv, 0x03] @ 0 # rest, nwrites = k, events = es\<rparr>
        = (None, \<lparr>unread = rest, nwrites = Suc k,
                  events = es @ [Write [0x05, 0x01, 0x00, 0x01, 0, 0, 0, 0, 0, 0] (write_ok E k)]\<rparr>)
   \<and> (length b = 16 \<longrightarrow>
      read_request E \<lparr>unread = [0x05, 0x01, rsv, 0x04] @ b @ [p1, p0] @ rest, nwrites = k, events = es\<rparr>
        = (Some \<lparr>destAddr = DestIPv6 b, destPort = Uint16 [p1, p0]\<rparr>,
           \<lparr>unread = rest, nwrites = k, events = es\<rparr>))
   \<and> (atyp \<noteq> 0x01 \<and> atyp \<noteq> 0x03 \<and> atyp \<noteq> 0x04 \<longrightarrow>
      read_request E \<lparr>unread = [0x05, 0x01, rsv, atyp] @ rest, nwrites = k, events = es\<rparr>
        = (None, \<lparr>unread = rest, nwrites = Suc k,
                  events = es @ [Write [0x05, 0x08, 0x00, 0x01, 0, 0, 0, 0, 0, 0] (write_ok E k)]\<rparr>))
   \<and> unat (Uint16 [p1, p0]) = 256 * unat p1 + unat p0"
proof (intro conjI impI)
  assume "length a = 4"
  then show "read_request E \<lparr>unread = [0x05, 0x01, rsv, 0x01] @ a @ [p1, p0] @ rest, nwrites = k, events = es\<rparr>
        = (Some \<lparr>destAddr = DestIPv4 a, destPort = Uint16 [p1, p0]\<rparr>,
           \<lparr>unread = rest, nwrites = k, events = es\<rparr>)"
    by (simp add: read_request_header parse_dest_IPv4 read_port socks5Version_def cmdConnect_def)
next
  assume "l \<noteq> 0 \<and> length name = unat l"
  then show "read_request E \<lparr>unread = [0x05, 0x01, rsv, 0x03] @ l # name @ [p1, p0] @ rest, nwrites = k, events = es\<rparr>
        = (Some \<lparr>destAddr = DestDomain name, destPort = Uint16 [p1, p0]\<rparr>,
           \<lparr>unread = rest, nwrites = k, events = es\<rparr>)"
    by (simp add: read_request_header parse_dest_Domain read_port socks5Version_def cmdConnect_def)
next
  show "read_request E \<lparr>unread = [0x05, 0x01, rsv, 0x03] @ 0 # rest, nwrites = k, events = es\<rparr>
        = (None, \<lparr>unread = rest, nwrites = Suc k,
                  events = es @ [Write [0x05, 0x01, 0x00, 0x01, 0, 0, 0, 0, 0, 0] (write_ok E k)]\<rparr>)"
    by (simp add: read_request_header parse_dest_Domain socks5Version_def cmdConnect_def)
next
  assume "length b = 16"
  then show "read_request E \<lparr>unread = [0x05, 0x01, rsv, 0x04] @ b @ [p1, p0] @ rest, nwrites = k, events = es\<rparr>
        = (Some \<lparr>destAddr = DestIPv6 b, destPort = Uint16 [p1, p0]\<rparr>,
           \<lparr>unread = rest, nwrites = k, events = es\<rparr>)"
    by (simp add: read_request_header parse_dest_IPv6 read_port socks5Version_def cmdConnect_def)
next
  assume "atyp \<noteq> 0x01 \<and> atyp \<noteq> 0x03 \<and> atyp \<noteq> 0x04"
  then show "read_request E \<lparr>unread = [0x05, 0x01, rsv, atyp] @ rest, nwrites = k, events = es\<rparr>
        = (None, \<lparr>unread = rest, nwrites = Suc k,
                  events = es @ [Write [0x05, 0x08, 0x00, 0x01, 0, 0, 0, 0, 0, 0] (write_ok E k)]\<rparr>)"
    by (simp add: read_request_header parse_dest_other socks5Version_def cmdConnect_def)
next
  show "unat (Uint16 [p1, p0]) = 256 * unat p1 + unat p0"
    by (rule Uint16_big_endian)
qed

theorem request_destination_parsing_witness:
  "read_request (const_env (\<lambda>_. True) (DialErr DNSError))
      \<lparr>unread = [0x05, 0x01, 0x00, 0x01] @ [127, 0, 0, 1] @ [0x1F, 0x90] @ [9],
       nwrites = 1, events = []\<rparr>
     = (Some \<lparr>destAddr = DestIPv4 [127, 0, 0, 1], destPort = 8080\<rparr>,
        \<lparr>unread = [9], nwrites = 1, events = []\<rparr>)
   \<and> read_request (const_env (\<lambda>_. True) (DialErr DNSError))
      \<lparr>unread = [0x05, 0x01, 0x00, 0x03] @ 0x03 # [97, 98, 99] @ [0x1F, 0x90] @ [9],
       nwrites = 1, events = []\<rparr>
     = (Some \<lparr>destAddr = DestDomain [97, 98, 99], destPort = 8080\<rparr>,
        \<lparr>unread = [9], nwrites = 1, events = []\<rparr>)
   \<and> read_request (const_env (\<lambda>_. True) (DialErr DNSError))
      \<lparr>unread = [0x05, 0x01, 0x00, 0x04]
           @ [0x20, 0x01, 0x0d, 0xb8, 0, 0, 0, 0, 0, 0, 0, 0, 0, 0, 0, 1] @ [0x1F, 0x90] @ [9],
       nwrites = 1, events = []\<rparr>
     = (Some \<lparr>destAddr = DestIPv6 [0x20, 0x01, 0x0d, 0xb8, 0, 0, 0, 0, 0, 0, 0, 0, 0, 0, 0, 1],
              destPort = 8080\<rparr>,
        \<lparr>unread = [9], nwrites = 1, events = []\<rparr>)
   \<and> read_request (const_env (\<lambda>_. True) (DialErr DNSError))
      \<lparr>unread = [0x05, 0x01, 0x00, 0x02] @ [9], nwrites = 1, events = []\<rparr>
     = (None, \<lparr>unread = [9], nwrites = 2,
               events = [Write [0x05, 0x08, 0x00, 0x01, 0, 0, 0, 0, 0, 0] True]\<rparr>)"
proof -
  have u: "Uint16 [0x1F, 0x90] = 8080" by (simp add: Uint16_def)
  from request_destination_parsing
         [where a = "[127, 0, 0, 1]" and l = "0x03" and name = "[97, 98, 99]"
            and b = "[0x20, 0x01, 0x0d, 0xb8, 0, 0, 0, 0, 0, 0, 0, 0, 0, 0, 0, 1]"
            and atyp = "0x02" and rsv = "0x00" and ?p1.0 = "0x1F" and ?p0.0 = "0x90"
            and rest = "[9]" and k = 1 and es = "[]"
            and E = "const_env (\<lambda>_. True) (DialErr DNSError)"]
  show ?thesis by (simp add: u const_env_def)
qed

subsection \<open>Malformed input\<close>

lemma session_greeting_short:
  assumes "length inp < 2"
  shows "session E inp oip = [SetDeadline, CloseClient]"
  using assms
  by (simp add: session_def handleConnection_def auth_negotiation_def ReadFull_def
                log_event_def accepted_def)

lemma session_greeting_header:
  "session E (v # n # rest) oip =
     (if v \<noteq> 0x05 \<or> n = 0 \<or> length rest < unat n then [SetDeadline, CloseClient]
      else events (handleConnection E (accepted (v # n # rest)) oip))"
proof -
  have nz: "(unat n = 0) = (n = 0)" by (simp add: unat_eq_0)
  show ?thesis
    by (auto simp: session_def handleConnection_def auth_negotiation_def ReadFull_def
                log_event_def accepted_def Let_def socks5Version_def nz)
qed

lemma session_after_greeting:
  assumes "n \<noteq> 0" "length methods = unat n" "authNone \<in> set methods" "write_ok E 0"
  shows "session E (0x05 # n # methods @ req) oip =
     events (case read_request E \<lparr>unread = req, nwrites = 1, events = [SetDeadline, Write [0x05, 0x00] True]\<rparr> of
          (None, c2) \<Rightarrow> c2
        | (Some tgt, c2) \<Rightarrow> dial_outbound E c2 oip tgt) @ [CloseClient]"
  using assms
  by (simp add: session_def handleConnection_after_greeting log_event_def)

lemmas request_shapes =
  read_request_header read_request_short parse_dest_IPv4 parse_dest_IPv6 parse_dest_Domain
  parse_dest_Domain_empty parse_dest_other read_port socks5Version_def cmdConnect_def

text \<open>
  C6. Malformed input is dropped without a reply: a greeting that is cut short, has a
  version other than 5 or offers zero methods leaves a session with no write at all; a
  request that is cut short at any point (header, address, length byte, name, port) or
  has a version other than 5 leaves a session whose only write is the method selection
  sent before the request was read. A well-formed request that is not acceptable
  (command other than CONNECT, empty name, unknown address type) and a greeting without
  no-auth get their reply before the close.
\<close>

theorem malformed_input_silent_drop:
  "(length inp < 2 \<longrightarrow> session E inp oip = [SetDeadline, CloseClient])
 \<and> (v \<noteq> 0x05 \<longrightarrow> session E (v # n # rest) oip = [SetDeadline, CloseClient])
 \<and> session E (0x05 # 0 # rest) oip = [SetDeadline, CloseClient]
 \<and> (length rest < unat n \<longrightarrow> session E (0x05 # n # rest) oip = [SetDeadline, CloseClient])
 \<and> (n \<noteq> 0 \<and> length methods = unat n \<and> authNone \<in> set methods \<and> write_ok E 0 \<longrightarrow>
      (length req < 4 \<longrightarrow>
         session E (0x05 # n # methods @ req) oip
           = [SetDeadline, Write [0x05, 0x00] True, CloseClient])
    \<and> (v \<noteq> 0x05 \<longrightarrow>
         session E (0x05 # n # methods @ v # cmd # rsv # atyp # rest) oip
           = [SetDeadline, Write [0x05, 0x00] True, CloseClient])
    \<and> (length rest < 4 \<longrightarrow>
         session E (0x05 # n # methods @ [0x05, 0x01, rsv, 0x01] @ rest) oip
           = [SetDeadline, Write [0x05, 0x00] True, CloseClient])
    \<and> (length a = 4 \<and> length rest < 2 \<longrightarrow>
         session E (0x05 # n # methods @ [0x05, 0x01, rsv, 0x01] @ a @ rest) oip
           = [SetDeadline, Write [0x05, 0x00] True, CloseClient])
    \<and> session E (0x05 # n # methods @ [0x05, 0x01, rsv, 0x03]) oip
           = [SetDeadline, Write [0x05, 0x00] True, CloseClient]
    \<and> (l \<noteq> 0 \<and> length rest < unat l \<longrightarrow>
         session E (0x05 # n # methods @ [0x05, 0x01, rsv, 0x03] @ l # rest) oip
           = [SetDeadline, Write [0x05, 0x00] True, CloseClient])
    \<and> (l \<noteq> 0 \<and> length name = unat l \<and> length rest < 2 \<longrightarrow>
         session E (0x05 # n # methods @ [0x05, 0x01, rsv, 0x03] @ l # name @ rest) oip
           = [SetDeadline, Write [0x05, 0x00] True, CloseClient])
    \<and> (length rest < 16 \<longrightarrow>
         session E (0x05 # n # methods @ [0x05, 0x01, rsv, 0x04] @ rest) oip
           = [SetDeadline, Write [0x05, 0x00] True, CloseClient])
    \<and> (length b = 16 \<and> length rest < 2 \<longrightarrow>
         session E (0x05 # n # methods @ [0x05, 0x01, rsv, 0x04] @ b @ rest) oip
           = [SetDeadline, Write [0x05, 0x00] True, CloseClient])
    \<and> (cmd \<noteq> 0x01 \<longrightarrow>
         session E (0x05 # n # methods @ 0x05 # cmd # rsv # atyp # rest) oip
           = [SetDeadline, Write [0x05, 0x00] True,
              Write [0x05, 0x07, 0x00, 0x01, 0, 0, 0, 0, 0, 0] (write_ok E 1), CloseClient])
    \<and> session E (0x05 # n # methods @ [0x05, 0x01, rsv, 0x03, 0x00] @ rest) oip
           = [SetDeadline, Write [0x05, 0x00] True,
              Write [0x05, 0x01, 0x00, 0x01, 0, 0, 0, 0, 0, 0] (write_ok E 1), CloseClient]
    \<and> (atyp \<noteq> 0x01 \<and> atyp \<noteq> 0x03 \<and> atyp \<noteq> 0x04 \<longrightarrow>
         session E (0x05 # n # methods @ [0x05, 0x01, rsv, atyp] @ rest) oip
           = [SetDeadline, Write [0x05, 0x00] True,
              Write [0x05, 0x08, 0x00, 0x01, 0, 0, 0, 0, 0, 0] (write_ok E 1), CloseClient]))
 \<and> (n \<noteq> 0 \<and> length methods = unat n \<and> authNone \<notin> set methods \<longrightarrow>
      session E (0x05 # n # methods @ rest) oip
        = [SetDeadline, Write [0x05, 0xFF] (write_ok E 0), CloseClient])"
proof -
  have g1: "length inp < 2 \<longrightarrow> session E inp oip = [SetDeadline, CloseClient]"
    by (simp add: session_greeting_short)
  have g2: "v \<noteq> 0x05 \<longrightarrow> session E (v # n # rest) oip = [SetDeadline, CloseClient]"
    by (simp add: session_greeting_header)
  have g3: "session E (0x05 # 0 # rest) oip = [SetDeadline, CloseClient]"
    by (simp add: session_greeting_header)
  have g4: "length rest < unat n \<longrightarrow> session E (0x05 # n # rest) oip = [SetDeadline, CloseClient]"
    by (simp add: session_greeting_header)
  have g5: "n \<noteq> 0 \<and> length methods = unat n \<and> authNone \<notin> set methods \<longrightarrow>
      session E (0x05 # n # methods @ rest) oip
        = [SetDeadline, Write [0x05, 0xFF] (write_ok E 0), CloseClient]"
    using handleConnection_greeting_closed [of n methods E rest oip]
    by (simp add: session_def)
  have r: "(length req < 4 \<longrightarrow>
         session E (0x05 # n # methods @ req) oip
           = [SetDeadline, Write [0x05, 0x00] True, CloseClient])
    \<and> (v \<noteq> 0x05 \<longrightarrow>
         session E (0x05 # n # methods @ v # cmd # rsv # atyp # rest) oip
           = [SetDeadline, Write [0x05, 0x00] True, CloseClient])
    \<and> (length rest < 4 \<longrightarrow>
         session E (0x05 # n # methods @ [0x05, 0x01, rsv, 0x01] @ rest) oip
           = [SetDeadline, Write [0x05, 0x00] True, CloseClient])
    \<and> (length a = 4 \<and> length rest < 2 \<longrightarrow>
         session E (0x05 # n # methods @ [0x05, 0x01, rsv, 0x01] @ a @ rest) oip
           = [SetDeadline, Write [0x05, 0x00] True, CloseClient])
    \<and> session E (0x05 # n # methods @ [0x05, 0x01, rsv, 0x03]) oip
           = [SetDeadline, Write [0x05, 0x00] True, CloseClient]
    \<and> (l \<noteq> 0 \<and> length rest < unat l \<longrightarrow>
         session E (0x05 # n # methods @ [0x05, 0x01, rsv, 0x03] @ l # rest) oip
           = [SetDeadline, Write [0x05, 0x00] True, CloseClient])
    \<and> (l \<noteq> 0 \<and> length name = unat l \<and> length rest < 2 \<longrightarrow>
         session E (0x05 # n # methods @ [0x05, 0x01, rsv, 0x03] @ l # name @ rest) oip
           = [SetDeadline, Write [0x05, 0x00] True, CloseClient])
    \<and> (length rest < 16 \<longrightarrow>
         session E (0x05 # n # methods @ [0x05, 0x01, rsv, 0x04] @ rest) oip
           = [SetDeadline, Write [0x05, 0x00] True, CloseClient])
    \<and> (length b = 16 \<and> length rest < 2 \<longrightarrow>
         session E (0x05 # n # methods @ [0x05, 0x01, rsv, 0x04] @ b @ rest) oip
           = [SetDeadline, Write [0x05, 0x00] True, CloseClient])
    \<and> (cmd \<noteq> 0x01 \<longrightarrow>
         session E (0x05 # n # methods @ 0x05 # cmd # rsv # atyp # rest) oip
           = [SetDeadline, Write [0x05, 0x00] True,
              Write [0x05, 0x07, 0x00, 0x01, 0, 0, 0, 0, 0, 0] (write_ok E 1), CloseClient])
    \<and> session E (0x05 # n # methods @ [0x05, 0x01, rsv, 0x03, 0x00] @ rest) oip
           = [SetDeadline, Write [0x05, 0x00] True,
              Write [0x05, 0x01, 0x00, 0x01, 0, 0, 0, 0, 0, 0] (write_ok E 1), CloseClient]
    \<and> (atyp \<noteq> 0x01 \<and> atyp \<noteq> 0x03 \<and> atyp \<noteq> 0x04 \<longrightarrow>
         session E (0x05 # n # methods @ [0x05, 0x01, rsv, atyp] @ rest) oip
           = [SetDeadline, Write [0x05, 0x00] True,
              Write [0x05, 0x08, 0x00, 0x01, 0, 0, 0, 0, 0, 0] (write_ok E 1), CloseClient])"
    if ok: "n \<noteq> 0 \<and> length methods = unat n \<and> authNone \<in> set methods \<and> write_ok E 0"
  proof -
    note sg = session_after_greeting [of n methods E _ oip]
    from ok show ?thesis
      by (intro conjI impI) (simp_all add: sg request_shapes)
  qed
  from g1 g2 g3 g4 g5 r show ?thesis by blast
qed

theorem malformed_input_silent_drop_witness:
  "session (const_env (\<lambda>_. True) (DialErr DNSError)) [0x05] None = [SetDeadline, CloseClient]
   \<and> session (const_env (\<lambda>_. True) (DialErr DNSError)) (0x04 # 0x01 # []) None
       = [SetDeadline, CloseClient]
   \<and> session (const_env (\<lambda>_. True) (DialErr DNSError))
         (0x05 # 0x01 # [0x00] @ [0x05, 0x01, 0x00, 0x01] @ [127, 0, 0, 1] @ []) None
       = [SetDeadline, Write [0x05, 0x00] True, CloseClient]
   \<and> session (const_env (\<lambda>_. True) (DialErr DNSError))
         (0x05 # 0x01 # [0x00] @ [0x05, 0x01, 0x00, 0x03] @ 0x03 # []) None
       = [SetDeadline, Write [0x05, 0x00] True, CloseClient]
   \<and> session (const_env (\<lambda>_. True) (DialErr DNSError))
         (0x05 # 0x01 # [0x00] @ [0x05, 0x01, 0x00, 0x02] @ []) None
       = [SetDeadline, Write [0x05, 0x00] True,
          Write [0x05, 0x08, 0x00, 0x01, 0, 0, 0, 0, 0, 0] True, CloseClient]
   \<and> session (const_env (\<lambda>_. True) (DialErr DNSError)) (0x05 # 0x01 # [0x02] @ []) None
       = [SetDeadline, Write [0x05, 0xFF] True, CloseClient]"
proof -
  let ?E = "const_env (\<lambda>_. True) (DialErr DNSError)"
  have w: "write_ok ?E k" for k by (simp add: const_env_def)
  note a = malformed_input_silent_drop
         [where inp = "[0x05]" and v = "0x04" and n = "0x01" and rest = "[]"
            and methods = "[0x00]" and req = "[0x05, 0x01]" and cmd = "0x02" and rsv = "0x00"
            and atyp = "0x02" and a = "[127, 0, 0, 1]" and l = "0x03" and name = "[97, 98, 99]"
            and b = "[0x20, 0x01, 0x0d, 0xb8, 0, 0, 0, 0, 0, 0, 0, 0, 0, 0, 0, 1]"
            and E = ?E and oip = None]
  note b = malformed_input_silent_drop
         [where inp = "[0x05]" and v = "0x04" and n = "0x01" and rest = "[]"
            and methods = "[0x02]" and req = "[0x05, 0x01]" and cmd = "0x02" and rsv = "0x00"
            and atyp = "0x02" and a = "[127, 0, 0, 1]" and l = "0x03" and name = "[97, 98, 99]"
            and b = "[0x20, 0x01, 0x0d, 0xb8, 0, 0, 0, 0, 0, 0, 0, 0, 0, 0, 0, 1]"
            and E = ?E and oip = None]
  from a have 1: "session ?E [0x05] None = [SetDeadline, CloseClient]"
    and 2: "session ?E (0x04 # 0x01 # []) None = [SetDeadline, CloseClient]"
    and 3: "session ?E (0x05 # 0x01 # [0x00] @ [0x05, 0x01, 0x00, 0x01] @ [127, 0, 0, 1] @ []) None
       = [SetDeadline, Write [0x05, 0x00] True, CloseClient]"
    and 4: "session ?E (0x05 # 0x01 # [0x00] @ [0x05, 0x01, 0x00, 0x03] @ 0x03 # []) None
       = [SetDeadline, Write [0x05, 0x00] True, CloseClient]"
    and 5: "session ?E (0x05 # 0x01 # [0x00] @ [0x05, 0x01, 0x00, 0x02] @ []) None
       = [SetDeadline, Write [0x05, 0x00] True,
          Write [0x05, 0x08, 0x00, 0x01, 0, 0, 0, 0, 0, 0] True, CloseClient]"
    by (simp_all add: w authNone_def)
  from b have 6: "session ?E (0x05 # 0x01 # [0x02] @ []) None
       = [SetDeadline, Write [0x05, 0xFF] True, CloseClient]"
    by (simp add: w authNone_def)
  from 1 2 3 4 5 6 show ?thesis by blast
qed

subsection \<open>relay: the invariants hold along every run\<close>

lemma task_step_hist:
  assumes "task_ok tcp t" and "task_step tcp ch res t P w = (t', P', w', as)"
  shows "task_ok tcp t' \<and> hist t' = hist t @ as \<and> dst t' = dst t \<and> src t' = src t"
proof (cases "tpc t")
  case AtGet
  obtain b P1 where g: "pool_Get P ch = (b, P1)" by force
  from assms AtGet g show ?thesis
    by (auto simp: task_step_def task_ok_def)
next
  case (AtCopy b)
  with assms show ?thesis
    by (auto simp: task_step_def task_ok_def Let_def)
next
  case (AtCloseWrite b)
  with assms show ?thesis
    by (auto simp: task_step_def task_ok_def Let_def)
next
  case (AtCloseRead b)
  with assms show ?thesis
    by (auto simp: task_step_def task_ok_def Let_def half_close_def)
next
  case (AtPut b)
  with assms show ?thesis
    by (auto simp: task_step_def task_ok_def Let_def)
next
  case AtWgDone
  with assms show ?thesis
    by (auto simp: task_step_def task_ok_def direction_trace_def)
next
  case Exited
  with assms show ?thesis
    by (auto simp: task_step_def task_ok_def)
qed

lemma task_step_wg:
  assumes "task_step tcp ch res t P w = (t', P', w', as)"
  shows "w' + pending (Some t) = w + pending (Some t')"
    and "tpc t = Exited \<longrightarrow> t' = t \<and> P' = P \<and> w' = w \<and> as = []"
  using assms
  by (cases "tpc t"; auto simp: task_step_def pending_def Let_def split: prod.splits)+

lemma did_append:
  "did th (s\<lparr>rlog := rlog s @ map (Pair th') as\<rparr>) = did th s @ (if th = th' then as else [])"
  by (induction as rule: rev_induct) (auto simp: did_def)

lemma did_upd [simp]:
  "did th (s\<lparr>c2r := x\<rparr>) = did th s" "did th (s\<lparr>r2c := y\<rparr>) = did th s"
  "did th (s\<lparr>bufPool := p\<rparr>) = did th s" "did th (s\<lparr>wg := w\<rparr>) = did th s"
  "did th (s\<lparr>mainpc := m\<rparr>) = did th s"
  by (simp_all add: did_def)

lemma run_task_eq:
  assumes "task_step tcp ch res t (bufPool s) (wg s) = (t', P', w', as)"
  shows "run_task tcp th ch res t s
           = (t', s\<lparr>bufPool := P', wg := w', rlog := rlog s @ map (Pair th) as\<rparr>)"
  using assms by (simp add: run_task_def)

lemma proj_map_Pair:
  "map snd (filter (\<lambda>e. fst e = th) (map (Pair th') as)) = (if th = th' then as else [])"
  by (induction as) auto

lemma task_ok_spawn: "task_ok tcp (spawn d s)"
  by (simp add: task_ok_def spawn_def)

lemma spawn_simps:
  "dst (spawn d s) = d" "src (spawn d s) = s" "hist (spawn d s) = []" "tpc (spawn d s) = AtGet"
  by (simp_all add: spawn_def)

lemma step_hist:
  assumes "inv_hist tcp s" and "inv_ctl s"
  shows "inv_hist tcp (relay_step tcp m s)"
proof (cases m)
  case RunCaller
  show ?thesis
  proof (cases "mainpc s")
    case MGo1
    with assms RunCaller show ?thesis
      by (auto simp: relay_step_def main_step_def inv_hist_def inv_ctl_def hist_of_def
                     task_ok_spawn spawn_simps split: option.splits)
  next
    case MGo2
    with assms RunCaller show ?thesis
      by (auto simp: relay_step_def main_step_def inv_hist_def inv_ctl_def hist_of_def
                     task_ok_spawn spawn_simps split: option.splits)
  qed (use assms RunCaller in
        \<open>auto simp: relay_step_def main_step_def inv_hist_def did_def split: option.splits\<close>)
next
  case (Evict i)
  with assms show ?thesis
    by (auto simp: relay_step_def inv_hist_def split: option.splits)
next
  case (RunTask th ch res)
  show ?thesis
  proof (cases th)
    case Caller
    with RunTask assms show ?thesis by (simp add: relay_step_def)
  next
    case ClientToRemote
    show ?thesis
    proof (cases "c2r s")
      case None
      with RunTask ClientToRemote assms show ?thesis by (simp add: relay_step_def)
    next
      case (Some t)
      obtain t' P' w' as where ts: "task_step tcp ch res t (bufPool s) (wg s) = (t', P', w', as)"
        by (metis prod_cases4)
      from assms(1) Some have ok: "task_ok tcp t" by (simp add: inv_hist_def)
      note h = task_step_hist [OF ok ts]
      from assms(1) Some h RunTask ClientToRemote show ?thesis
        by (auto simp: relay_step_def run_task_eq [OF ts] inv_hist_def did_def proj_map_Pair hist_of_def comp_def
                 split: option.splits)
    qed
  next
    case RemoteToClient
    show ?thesis
    proof (cases "r2c s")
      case None
      with RunTask RemoteToClient assms show ?thesis by (simp add: relay_step_def)
    next
      case (Some t)
      obtain t' P' w' as where ts: "task_step tcp ch res t (bufPool s) (wg s) = (t', P', w', as)"
        by (metis prod_cases4)
      from assms(1) Some have ok: "task_ok tcp t" by (simp add: inv_hist_def)
      note h = task_step_hist [OF ok ts]
      from assms(1) Some h RunTask RemoteToClient show ?thesis
        by (auto simp: relay_step_def run_task_eq [OF ts] inv_hist_def did_def proj_map_Pair hist_of_def comp_def
                 split: option.splits)
    qed
  qed
qed

lemma pending_range: "pending t = 0 \<or> pending t = 1"
  by (simp add: pending_def split: option.splits)

lemma pending_spawn: "pending (Some (spawn d s)) = 1"
  by (simp add: pending_def spawn_def)

lemma pending_zero: "pending (Some t) = 0 \<longleftrightarrow> tpc t = Exited"
  by (simp add: pending_def)

lemma ctl_task:
  assumes inv: "inv_ctl s"
      and ts: "task_step tcp ch res t (bufPool s) (wg s) = (t', P', w', as)"
      and th: "th = ClientToRemote \<and> c2r s = Some t \<or> th = RemoteToClient \<and> r2c s = Some t"
  shows "inv_ctl ((s\<lparr>bufPool := P', wg := w', rlog := rlog s @ map (Pair th) as\<rparr>)
                   \<lparr>c2r := if th = ClientToRemote then Some t' else c2r s,
                    r2c := if th = RemoteToClient then Some t' else r2c s\<rparr>)"
proof -
  note w = task_step_wg [OF ts]
  have nc: "th \<noteq> Caller" using th by auto
  show ?thesis
  proof (cases "mainpc s")
    case MReturned
    with inv th have "tpc t = Exited"
      by (auto simp: inv_ctl_def pending_zero)
    with w(2) have "t' = t" "P' = P" "w' = wg s" "as = []" if "P = bufPool s" for P
      using that by auto
    then have e: "t' = t" "w' = wg s" "as = []" by auto
    from inv MReturned th show ?thesis
      unfolding e by (auto simp: inv_ctl_def did_def)
  next
    case MAdd
    with inv th show ?thesis by (auto simp: inv_ctl_def)
  next
    case MGo1
    with inv th show ?thesis by (auto simp: inv_ctl_def)
  next
    case MGo2
    with inv th w(1) nc show ?thesis
      by (auto simp: inv_ctl_def did_def proj_map_Pair)
  next
    case MWait
    with inv th w(1) nc show ?thesis
      by (auto simp: inv_ctl_def did_def proj_map_Pair)
  qed
qed

lemma step_ctl:
  assumes "inv_ctl s"
  shows "inv_ctl (relay_step tcp m s)"
proof (cases m)
  case RunCaller
  show ?thesis
  proof (cases "mainpc s")
    case MWait
    show ?thesis
    proof (cases "wg s = 0")
      case True
      with assms MWait have "pending (c2r s) = 0 \<and> pending (r2c s) = 0"
        using pending_range [of "c2r s"] pending_range [of "r2c s"]
        by (auto simp: inv_ctl_def)
      with assms MWait True RunCaller show ?thesis
        by (auto simp: relay_step_def main_step_def inv_ctl_def did_def)
    next
      case False
      with assms MWait RunCaller show ?thesis
        by (simp add: relay_step_def main_step_def)
    qed
  qed (use assms RunCaller in
        \<open>auto simp: relay_step_def main_step_def inv_ctl_def did_def pending_spawn\<close>)
next
  case (Evict i)
  with assms show ?thesis
    by (auto simp: relay_step_def inv_ctl_def did_def split: mpc.splits)
next
  case (RunTask th ch res)
  show ?thesis
  proof (cases th)
    case Caller
    with RunTask assms show ?thesis by (simp add: relay_step_def)
  next
    case ClientToRemote
    show ?thesis
    proof (cases "c2r s")
      case None
      with RunTask ClientToRemote assms show ?thesis by (simp add: relay_step_def)
    next
      case (Some t)
      obtain t' P' w' as where ts: "task_step tcp ch res t (bufPool s) (wg s) = (t', P', w', as)"
        by (metis prod_cases4)
      from ctl_task [OF assms ts, of ClientToRemote] Some RunTask ClientToRemote show ?thesis
        by (simp add: relay_step_def run_task_eq [OF ts])
    qed
  next
    case RemoteToClient
    show ?thesis
    proof (cases "r2c s")
      case None
      with RunTask RemoteToClient assms show ?thesis by (simp add: relay_step_def)
    next
      case (Some t)
      obtain t' P' w' as where ts: "task_step tcp ch res t (bufPool s) (wg s) = (t', P', w', as)"
        by (metis prod_cases4)
      from ctl_task [OF assms ts, of RemoteToClient] Some RunTask RemoteToClient show ?thesis
        by (simp add: relay_step_def run_task_eq [OF ts])
    qed
  qed
qed

lemma remove_nth_distinct:
  assumes "i < length xs" and "distinct xs"
  shows "distinct (take i xs @ drop (Suc i) xs)"
    and "xs ! i \<notin> set (take i xs @ drop (Suc i) xs)"
proof -
  have "xs = take i xs @ xs ! i # drop (Suc i) xs"
    using assms(1) by (rule id_take_nth_drop)
  with assms(2) have "distinct (take i xs @ xs ! i # drop (Suc i) xs)" by simp
  then show "distinct (take i xs @ drop (Suc i) xs)"
    and "xs ! i \<notin> set (take i xs @ drop (Suc i) xs)" by auto
qed

lemma remove_nth_subset: "set (take i xs @ drop (Suc i) xs) \<subseteq> set xs"
  using set_take_subset [of i xs] set_drop_subset [of "Suc i" xs] by auto

lemma pool_Get_inv:
  assumes "pool_inv P hs" and "pool_Get P ch = (b, P')"
  shows "pool_inv P' (b # hs)"
proof -
  have new: "pool_inv (snd (pool_New P)) (fst (pool_New P) # hs)"
    using assms(1) by (auto simp: pool_inv_def pool_New_def less_Suc_eq)
  show ?thesis
  proof (cases ch)
    case None
    with assms(2) new show ?thesis by (auto simp: pool_Get_def)
  next
    case (Some i)
    show ?thesis
    proof (cases "i < length (idle P)")
      case False
      with Some assms(2) new show ?thesis by (auto simp: pool_Get_def)
    next
      case True
      from assms(1) have d: "distinct (idle P)" by (simp add: pool_inv_def)
      note r = remove_nth_distinct [OF True d] remove_nth_subset [of i "idle P"]
      have b: "b = idle P ! i" and P': "P' = P\<lparr>idle := take i (idle P) @ drop (Suc i) (idle P)\<rparr>"
        using True Some assms(2) by (auto simp: pool_Get_def)
      have bi: "b \<in> set (idle P)" using True b by simp
      from assms(1) r bi show ?thesis
        unfolding pool_inv_def b P' by (auto simp: subset_iff)
    qed
  qed
qed

lemma pool_Put_inv:
  assumes "pool_inv P (b # hs)"
  shows "pool_inv (pool_Put P b) hs"
  using assms by (auto simp: pool_inv_def pool_Put_def)

lemma pool_Evict_inv:
  assumes "pool_inv P hs"
  shows "pool_inv (pool_Evict P i) hs"
proof -
  from assms have d: "distinct (idle P)" by (simp add: pool_inv_def)
  have dd: "distinct (take i (idle P) @ drop (Suc i) (idle P))"
  proof (cases "i < length (idle P)")
    case True
    then show ?thesis using d by (rule remove_nth_distinct)
  next
    case False
    then show ?thesis using d by simp
  qed
  from assms dd remove_nth_subset [of i "idle P"] show ?thesis
    unfolding pool_inv_def pool_Evict_def by (auto simp: subset_iff)
qed

lemma pool_inv_swap:
  assumes "pool_inv P (xs @ ys)"
  shows "pool_inv P (ys @ xs)"
  using assms by (auto simp: pool_inv_def)

lemma pool_task:
  assumes ts: "task_step tcp ch res t P w = (t', P', w', as)"
      and inv: "pool_inv P (holding (Some t) @ other)"
  shows "pool_inv P' (holding (Some t') @ other)"
proof (cases "tpc t")
  case AtGet
  obtain b P1 where g: "pool_Get P ch = (b, P1)" by force
  from inv AtGet have "pool_inv P other" by (simp add: holding_def)
  from pool_Get_inv [OF this g] ts AtGet g show ?thesis
    by (auto simp: task_step_def holding_def)
next
  case (AtPut b)
  with inv have "pool_inv P (b # other)" by (simp add: holding_def)
  from pool_Put_inv [OF this] ts AtPut show ?thesis
    by (auto simp: task_step_def holding_def)
qed (use ts inv in \<open>auto simp: task_step_def holding_def Let_def\<close>)

lemma inv_pool_alt: "inv_pool s = pool_inv (bufPool s) (holding (c2r s) @ holding (r2c s))"
  by (simp add: inv_pool_def pool_inv_def held_def)

lemma holding_None: "holding None = []"
  by (simp add: holding_def)

lemma holding_spawn: "holding (Some (spawn d s)) = []"
  by (simp add: holding_def spawn_def)

lemma step_pool:
  assumes "inv_pool s" and "inv_ctl s"
  shows "inv_pool (relay_step tcp m s)"
proof (cases m)
  case RunCaller
  with assms show ?thesis
    by (cases "mainpc s")
       (auto simp: relay_step_def main_step_def inv_pool_alt inv_ctl_def holding_spawn holding_None)
next
  case (Evict i)
  with assms(1) show ?thesis
    by (simp add: relay_step_def inv_pool_alt pool_Evict_inv)
next
  case (RunTask th ch res)
  show ?thesis
  proof (cases th)
    case Caller
    with RunTask assms show ?thesis by (simp add: relay_step_def)
  next
    case ClientToRemote
    show ?thesis
    proof (cases "c2r s")
      case None
      with RunTask ClientToRemote assms show ?thesis by (simp add: relay_step_def)
    next
      case (Some t)
      obtain t' P' w' as where ts: "task_step tcp ch res t (bufPool s) (wg s) = (t', P', w', as)"
        by (metis prod_cases4)
      from assms(1) Some have "pool_inv (bufPool s) (holding (Some t) @ holding (r2c s))"
        by (simp add: inv_pool_alt)
      from pool_task [OF ts this] Some RunTask ClientToRemote show ?thesis
        by (simp add: relay_step_def run_task_eq [OF ts] inv_pool_alt)
    qed
  next
    case RemoteToClient
    show ?thesis
    proof (cases "r2c s")
      case None
      with RunTask RemoteToClient assms show ?thesis by (simp add: relay_step_def)
    next
      case (Some t)
      obtain t' P' w' as where ts: "task_step tcp ch res t (bufPool s) (wg s) = (t', P', w', as)"
        by (metis prod_cases4)
      from assms(1) Some have "pool_inv (bufPool s) (holding (c2r s) @ holding (Some t))"
        by (simp add: inv_pool_alt)
      then have "pool_inv (bufPool s) (holding (Some t) @ holding (c2r s))"
        by (rule pool_inv_swap)
      from pool_task [OF ts this]
      have "pool_inv P' (holding (Some t') @ holding (c2r s))" .
      then have "pool_inv P' (holding (c2r s) @ holding (Some t'))"
        by (rule pool_inv_swap)
      with Some RunTask RemoteToClient show ?thesis
        by (simp add: relay_step_def run_task_eq [OF ts] inv_pool_alt)
    qed
  qed
qed

lemma inv_init:
  "inv_hist tcp (relay_init P)" "inv_ctl (relay_init P)"
  "pool_ok P \<Longrightarrow> inv_pool (relay_init P)"
  by (auto simp: inv_hist_def inv_ctl_def inv_pool_def relay_init_def did_def hist_of_def
                 held_def holding_def pool_ok_def list_all_iff)

lemma inv_fold:
  assumes "inv_hist tcp s" and "inv_ctl s"
  shows "inv_hist tcp (fold (relay_step tcp) ms s) \<and> inv_ctl (fold (relay_step tcp) ms s)"
  using assms
  by (induction ms arbitrary: s) (simp_all add: step_hist step_ctl)

lemma inv_pool_fold:
  assumes "inv_pool s" and "inv_ctl s"
  shows "inv_pool (fold (relay_step tcp) ms s)"
  using assms
  by (induction ms arbitrary: s) (simp_all add: step_pool step_ctl)

lemma relay_from_inv:
  "inv_hist tcp (relay_from tcp P ms)" "inv_ctl (relay_from tcp P ms)"
  "pool_ok P \<Longrightarrow> inv_pool (relay_from tcp P ms)"
proof -
  have h: "inv_hist tcp (relay_init P)" and c: "inv_ctl (relay_init P)"
    by (rule inv_init)+
  from inv_fold [OF h c, of ms]
  show "inv_hist tcp (relay_from tcp P ms)" "inv_ctl (relay_from tcp P ms)"
    by (simp_all add: relay_from_def relay_run_def)
  assume "pool_ok P"
  then have p: "inv_pool (relay_init P)" by (rule inv_init)
  from inv_pool_fold [OF p c, of tcp ms]
  show "inv_pool (relay_from tcp P ms)"
    by (simp add: relay_from_def relay_run_def)
qed

lemma count_split:
  "count_list (map snd l) x =
     count_list (map snd (filter (\<lambda>e. fst e = Caller) l)) x
   + count_list (map snd (filter (\<lambda>e. fst e = ClientToRemote) l)) x
   + count_list (map snd (filter (\<lambda>e. fst e = RemoteToClient) l)) x"
proof (induction l)
  case Nil
  then show ?case by simp
next
  case (Cons e l)
  then show ?case by (cases "fst e") auto
qed

lemma task_balance:
  assumes "task_ok tcp t"
  shows "count_list (hist t) (PoolGet b)
           = count_list (hist t) (PoolPut b) + count_list (holding (Some t)) b"
  using assms
  by (cases "tpc t")
     (auto simp: task_ok_def holding_def half_close_def direction_trace_def)

lemma hist_of_balance:
  assumes "\<And>a. t = Some a \<Longrightarrow> task_ok tcp a"
  shows "count_list (hist_of t) (PoolGet b)
           = count_list (hist_of t) (PoolPut b) + count_list (holding t) b"
proof (cases t)
  case None
  then show ?thesis by (simp add: hist_of_def holding_def)
next
  case (Some a)
  with assms [OF Some] task_balance [of tcp a b] show ?thesis by (simp add: hist_of_def)
qed

lemma caller_no_buffers:
  assumes "inv_ctl s"
  shows "count_list (did Caller s) (PoolGet b) = 0" "count_list (did Caller s) (PoolPut b) = 0"
  using assms by (cases "mainpc s"; simp add: inv_ctl_def)+

lemma log_balance:
  assumes "inv_hist tcp s" and "inv_ctl s"
  shows "count_list (map snd (rlog s)) (PoolGet b)
           = count_list (map snd (rlog s)) (PoolPut b) + count_list (held s) b"
proof -
  from assms(1) have ok: "\<And>a. c2r s = Some a \<Longrightarrow> task_ok tcp a"
      "\<And>a. r2c s = Some a \<Longrightarrow> task_ok tcp a"
    and d: "did ClientToRemote s = hist_of (c2r s)" "did RemoteToClient s = hist_of (r2c s)"
    by (auto simp: inv_hist_def)
  have c: "count_list (did ClientToRemote s) (PoolGet b)
          = count_list (did ClientToRemote s) (PoolPut b) + count_list (holding (c2r s)) b"
    unfolding d by (rule hist_of_balance) (rule ok)
  have r: "count_list (did RemoteToClient s) (PoolGet b)
          = count_list (did RemoteToClient s) (PoolPut b) + count_list (holding (r2c s)) b"
    unfolding d by (rule hist_of_balance) (rule ok)
  note m = caller_no_buffers [OF assms(2), of b]
  from c r m show ?thesis
    using count_split [of "rlog s" "PoolGet b"] count_split [of "rlog s" "PoolPut b"]
    by (simp add: did_def held_def)
qed

lemma returned_exited:
  assumes "inv_ctl s" and "mainpc s = MReturned"
  shows "\<exists>t u. c2r s = Some t \<and> tpc t = Exited \<and> r2c s = Some u \<and> tpc u = Exited"
  using assms by (auto simp: inv_ctl_def pending_def split: option.splits if_splits)

lemma direction_done:
  assumes "inv_hist tcp s" and "direction th s = Some t" and "copy_returned t"
  shows "\<exists>b r. did th s = [PoolGet b, CopyBuffer (dst t) (src t) b r]
                   @ half_close tcp (dst t) (src t) @ [PoolPut b]
                   @ (if tpc t = Exited then [WgDone] else [])"
proof -
  from assms(1,2) have ok: "task_ok tcp t" and d: "did th s = hist t"
    by (cases th; auto simp: inv_hist_def direction_def hist_of_def)+
  from ok assms(3) show ?thesis
    unfolding d by (auto simp: task_ok_def copy_returned_def direction_trace_def)
qed

subsection \<open>Pooled buffers\<close>

text \<open>
  C8. Under every schedule and every outcome of the copies, an I/O error included: no
  buffer is held by both directions or held while idle in the pool; for every buffer
  the log holds as many \<^verbatim>\<open>Get\<close>s as \<^verbatim>\<open>Put\<close>s, plus one while a copy holds it; a direction
  whose \<^verbatim>\<open>copyAndClose\<close> has returned did exactly one \<^verbatim>\<open>Get\<close> and one \<^verbatim>\<open>Put\<close>, of the same
  buffer, the \<^verbatim>\<open>Put\<close> after the copy; and when \<^verbatim>\<open>relay\<close> has returned no buffer is held.
\<close>

theorem pooled_buffer_released_once:
  assumes "pool_ok P"
  shows "distinct (held (relay_from tcp P ms))
       \<and> set (held (relay_from tcp P ms)) \<inter> set (idle (bufPool (relay_from tcp P ms))) = {}
       \<and> (\<forall>b. count_list (map snd (rlog (relay_from tcp P ms))) (PoolGet b)
               = count_list (map snd (rlog (relay_from tcp P ms))) (PoolPut b)
                 + count_list (held (relay_from tcp P ms)) b)
       \<and> (\<forall>th t. direction th (relay_from tcp P ms) = Some t \<and> copy_returned t \<longrightarrow>
             (\<exists>b r. did th (relay_from tcp P ms) =
                      [PoolGet b, CopyBuffer (dst t) (src t) b r]
                      @ half_close tcp (dst t) (src t) @ [PoolPut b]
                      @ (if tpc t = Exited then [WgDone] else [])))
       \<and> (mainpc (relay_from tcp P ms) = MReturned \<longrightarrow>
             held (relay_from tcp P ms) = []
           \<and> (\<forall>b. count_list (map snd (rlog (relay_from tcp P ms))) (PoolGet b)
                   = count_list (map snd (rlog (relay_from tcp P ms))) (PoolPut b)))"
proof -
  let ?s = "relay_from tcp P ms"
  note h = relay_from_inv(1) [of tcp P ms] and c = relay_from_inv(2) [of tcp P ms]
  note p = relay_from_inv(3) [OF assms, of tcp ms]
  have bal: "count_list (map snd (rlog ?s)) (PoolGet b)
               = count_list (map snd (rlog ?s)) (PoolPut b) + count_list (held ?s) b" for b
    by (rule log_balance [OF h c])
  have ret: "held ?s = []" if "mainpc ?s = MReturned"
    using returned_exited [OF c that] by (auto simp: held_def holding_def)
  have dn: "\<exists>b r. did th ?s = [PoolGet b, CopyBuffer (dst t) (src t) b r]
                      @ half_close tcp (dst t) (src t) @ [PoolPut b]
                      @ (if tpc t = Exited then [WgDone] else [])"
    if "direction th ?s = Some t \<and> copy_returned t" for th t
    using direction_done [OF h, of th t] that by blast
  from p have "distinct (held ?s)" "set (held ?s) \<inter> set (idle (bufPool ?s)) = {}"
    by (auto simp: inv_pool_def)
  moreover
  have "\<forall>b. count_list (map snd (rlog ?s)) (PoolGet b)
               = count_list (map snd (rlog ?s)) (PoolPut b)"
    if "mainpc ?s = MReturned"
    using bal ret [OF that] by simp
  ultimately show ?thesis using bal ret dn by blast
qed

theorem pooled_buffer_released_once_witness:
  "pool_ok sample_pool
   \<and> mainpc (relay_from (\<lambda>_. True) sample_pool sample_schedule) = MReturned
   \<and> did ClientToRemote (relay_from (\<lambda>_. True) sample_pool sample_schedule) =
       [PoolGet 7, CopyBuffer Remote Client 7 (CopyErr 10), CloseWrite Remote,
        CloseRead Client, PoolPut 7, WgDone]
   \<and> did RemoteToClient (relay_from (\<lambda>_. True) sample_pool sample_schedule) =
       [PoolGet 8, CopyBuffer Client Remote 8 (CopyOk 3), CloseWrite Client,
        CloseRead Remote, PoolPut 8, WgDone]
   \<and> held (relay_from (\<lambda>_. True) sample_pool sample_schedule) = []
   \<and> count_list (map snd (rlog (relay_from (\<lambda>_. True) sample_pool sample_schedule))) (PoolGet 7)
       = count_list (map snd (rlog (relay_from (\<lambda>_. True) sample_pool sample_schedule))) (PoolPut 7)"
proof -
  have ok: "pool_ok sample_pool" by (simp add: pool_ok_def sample_pool_def)
  have r: "mainpc (relay_from (\<lambda>_. True) sample_pool sample_schedule) = MReturned"
    by code_simp
  have d1: "did ClientToRemote (relay_from (\<lambda>_. True) sample_pool sample_schedule) =
       [PoolGet 7, CopyBuffer Remote Client 7 (CopyErr 10), CloseWrite Remote,
        CloseRead Client, PoolPut 7, WgDone]"
    by code_simp
  have d2: "did RemoteToClient (relay_from (\<lambda>_. True) sample_pool sample_schedule) =
       [PoolGet 8, CopyBuffer Client Remote 8 (CopyOk 3), CloseWrite Client,
        CloseRead Remote, PoolPut 8, WgDone]"
    by code_simp
  from pooled_buffer_released_once [OF ok, of "\<lambda>_. True" sample_schedule] r
  have "held (relay_from (\<lambda>_. True) sample_pool sample_schedule) = []"
    and "count_list (map snd (rlog (relay_from (\<lambda>_. True) sample_pool sample_schedule))) (PoolGet 7)
       = count_list (map snd (rlog (relay_from (\<lambda>_. True) sample_pool sample_schedule))) (PoolPut 7)"
    by blast+
  with ok r d1 d2 show ?thesis by blast
qed

subsection \<open>The rendezvous of relay\<close>

text \<open>
  C9. Under every schedule, when \<^verbatim>\<open>relay\<close> has returned both directions have exited,
  each having copied, then closed the write side of its destination and the read side
  of its source (the sockets of a session are TCP connections, for which the type
  assertion of \<^verbatim>\<open>copyAndClose\<close> holds), then released its buffer; the return is the last
  event. A direction that has not exited can always take its next step, whatever the
  other has done, and its step leaves the other direction as it is.
\<close>

theorem relay_returns_after_both_directions:
  "(mainpc (relay_from tcp P ms) = MReturned \<longrightarrow>
      (\<exists>t u. c2r (relay_from tcp P ms) = Some t \<and> tpc t = Exited
           \<and> r2c (relay_from tcp P ms) = Some u \<and> tpc u = Exited)
    \<and> (\<exists>b1 r1 b2 r2.
          did ClientToRemote (relay_from tcp P ms) =
            [PoolGet b1, CopyBuffer Remote Client b1 r1] @ half_close tcp Remote Client
            @ [PoolPut b1, WgDone]
        \<and> did RemoteToClient (relay_from tcp P ms) =
            [PoolGet b2, CopyBuffer Client Remote b2 r2] @ half_close tcp Client Remote
            @ [PoolPut b2, WgDone])
    \<and> did Caller (relay_from tcp P ms) = [WgAdd 2, WgWait]
    \<and> last (rlog (relay_from tcp P ms)) = (Caller, WgWait))
 \<and> (tcp Client \<and> tcp Remote \<longrightarrow>
      half_close tcp Remote Client = [CloseWrite Remote, CloseRead Client]
    \<and> half_close tcp Client Remote = [CloseWrite Client, CloseRead Remote])
 \<and> (\<forall>th t ch res. direction th (relay_from tcp P ms) = Some t \<and> tpc t \<noteq> Exited \<longrightarrow>
        direction th (relay_step tcp (RunTask th ch res) (relay_from tcp P ms)) \<noteq> Some t
      \<and> (\<forall>th'. th' \<noteq> th \<longrightarrow>
            direction th' (relay_step tcp (RunTask th ch res) (relay_from tcp P ms))
              = direction th' (relay_from tcp P ms)))"
proof -
  let ?s = "relay_from tcp P ms"
  note h = relay_from_inv(1) [of tcp P ms] and c = relay_from_inv(2) [of tcp P ms]
  have A: "(\<exists>t u. c2r ?s = Some t \<and> tpc t = Exited \<and> r2c ?s = Some u \<and> tpc u = Exited)
    \<and> (\<exists>b1 r1 b2 r2.
          did ClientToRemote ?s =
            [PoolGet b1, CopyBuffer Remote Client b1 r1] @ half_close tcp Remote Client
            @ [PoolPut b1, WgDone]
        \<and> did RemoteToClient ?s =
            [PoolGet b2, CopyBuffer Client Remote b2 r2] @ half_close tcp Client Remote
            @ [PoolPut b2, WgDone])
    \<and> did Caller ?s = [WgAdd 2, WgWait]
    \<and> last (rlog ?s) = (Caller, WgWait)" if ret: "mainpc ?s = MReturned"
  proof -
    from returned_exited [OF c ret] obtain t u
      where t: "c2r ?s = Some t" "tpc t = Exited" and u: "r2c ?s = Some u" "tpc u = Exited"
      by blast
    from h t have dt: "dst t = Remote" "src t = Client" by (simp_all add: inv_hist_def)
    from h u have du: "dst u = Client" "src u = Remote" by (simp_all add: inv_hist_def)
    from direction_done [OF h, of ClientToRemote t] t dt
    obtain b1 r1 where 1: "did ClientToRemote ?s =
        [PoolGet b1, CopyBuffer Remote Client b1 r1] @ half_close tcp Remote Client
        @ [PoolPut b1, WgDone]"
      by (auto simp: direction_def copy_returned_def)
    from direction_done [OF h, of RemoteToClient u] u du
    obtain b2 r2 where 2: "did RemoteToClient ?s =
        [PoolGet b2, CopyBuffer Client Remote b2 r2] @ half_close tcp Client Remote
        @ [PoolPut b2, WgDone]"
      by (auto simp: direction_def copy_returned_def)
    from c ret have 3: "did Caller ?s = [WgAdd 2, WgWait]" "last (rlog ?s) = (Caller, WgWait)"
      by (simp_all add: inv_ctl_def)
    from t u 1 2 3 show ?thesis by blast
  qed
  have B: "tcp Client \<and> tcp Remote \<longrightarrow>
      half_close tcp Remote Client = [CloseWrite Remote, CloseRead Client]
    \<and> half_close tcp Client Remote = [CloseWrite Client, CloseRead Remote]"
    by (simp add: half_close_def)
  have C: "direction th (relay_step tcp (RunTask th ch res) ?s) \<noteq> Some t
      \<and> (\<forall>th'. th' \<noteq> th \<longrightarrow>
            direction th' (relay_step tcp (RunTask th ch res) ?s) = direction th' ?s)"
    if d: "direction th ?s = Some t \<and> tpc t \<noteq> Exited" for th t ch res
  proof -
    obtain t' P' w' as where ts: "task_step tcp ch res t (bufPool ?s) (wg ?s) = (t', P', w', as)"
      by (metis prod_cases4)
    have ne: "tpc t' \<noteq> tpc t"
      using ts d by (cases "tpc t"; auto simp: task_step_def Let_def split: prod.splits)
    then have "t' \<noteq> t" by auto
    with d ts show ?thesis
      by (cases th; auto simp: direction_def relay_step_def run_task_eq [OF ts] split: thread.splits)
  qed
  from A B C show ?thesis by blast
qed

theorem relay_returns_after_both_directions_witness:
  "mainpc (relay_from (\<lambda>_. True) sample_pool sample_schedule) = MReturned
   \<and> rlog (relay_from (\<lambda>_. True) sample_pool sample_schedule) =
      [(Caller, WgAdd 2), (ClientToRemote, PoolGet 7), (RemoteToClient, PoolGet 8),
       (ClientToRemote, CopyBuffer Remote Client 7 (CopyErr 10)),
       (RemoteToClient, CopyBuffer Client Remote 8 (CopyOk 3)),
       (ClientToRemote, CloseWrite Remote), (ClientToRemote, CloseRead Client),
       (ClientToRemote, PoolPut 7), (ClientToRemote, WgDone),
       (RemoteToClient, CloseWrite Client), (RemoteToClient, CloseRead Remote),
       (RemoteToClient, PoolPut 8), (RemoteToClient, WgDone), (Caller, WgWait)]
   \<and> mainpc (relay_from (\<lambda>_. True) sample_pool (take 12 sample_schedule)) = MWait
   \<and> last (rlog (relay_from (\<lambda>_. True) sample_pool sample_schedule)) = (Caller, WgWait)"
proof -
  have r: "mainpc (relay_from (\<lambda>_. True) sample_pool sample_schedule) = MReturned"
    by code_simp
  have l: "rlog (relay_from (\<lambda>_. True) sample_pool sample_schedule) =
      [(Caller, WgAdd 2), (ClientToRemote, PoolGet 7), (RemoteToClient, PoolGet 8),
       (ClientToRemote, CopyBuffer Remote Client 7 (CopyErr 10)),
       (RemoteToClient, CopyBuffer Client Remote 8 (CopyOk 3)),
       (ClientToRemote, CloseWrite Remote), (ClientToRemote, CloseRead Client),
       (ClientToRemote, PoolPut 7), (ClientToRemote, WgDone),
       (RemoteToClient, CloseWrite Client), (RemoteToClient, CloseRead Remote),
       (RemoteToClient, PoolPut 8), (RemoteToClient, WgDone), (Caller, WgWait)]"
    by code_simp
  have w: "mainpc (relay_from (\<lambda>_. True) sample_pool (take 12 sample_schedule)) = MWait"
    by code_simp
  from relay_returns_after_both_directions [of "\<lambda>_. True" sample_pool sample_schedule] r
  have "last (rlog (relay_from (\<lambda>_. True) sample_pool sample_schedule)) = (Caller, WgWait)"
    by blast
  with r l w show ?thesis by blast
qed

end
